theory Spec2Isabelle
  imports Complex_Main "HOL-Library.Word"
begin

unbundle bit_operations_syntax

section \<open>The allocator binding of the context\<close>

text \<open>
  Addresses are natural numbers and \<open>NULL\<close> is address 0. The C heap is the map of
  the live blocks: the base address of a block is mapped to its size in bytes;
  \<open>size_t\<close> is the unsigned 32-bit integer of the Emscripten target. The C library's
  \<open>free\<close> takes a block out of the heap. The C library's \<open>realloc\<close> is the host's
  allocator, which the engine depends on but does not implement: it is a parameter
  of the binding.
\<close>

type_synonym addr = nat

type_synonym heap = "addr \<rightharpoonup> nat"

type_synonym size_t = "32 word"

definition NULL :: addr where
  "NULL = 0"

definition free :: "heap \<Rightarrow> addr \<Rightarrow> heap" where
  "free h p = h(p := None)"

text \<open>
  \<open>my_bf_realloc(opaque, ptr, size)\<close>:
  \<^verbatim>\<open>if (ptr && size <= 0) { free(ptr); return 0; } return realloc(ptr, size);\<close>
  The comparison is unsigned. The function returns the new heap and the pointer.
\<close>

definition my_bf_realloc ::
  "(heap \<Rightarrow> addr \<Rightarrow> size_t \<Rightarrow> heap \<times> addr) \<Rightarrow> heap \<Rightarrow> 'o \<Rightarrow> addr \<Rightarrow> size_t \<Rightarrow> heap \<times> addr" where
  "my_bf_realloc realloc h opaque p sz =
     (if p \<noteq> NULL \<and> sz \<le> 0 then (free h p, NULL) else realloc h p sz)"

section \<open>Values, flag bundles and status codes\<close>

text \<open>
  The facade includes \<open>libbf.h\<close> and calls the engine behind it; neither the header nor
  the engine is among the sources. What the facade uses of them is modelled from the
  spec, definition by definition, or is a parameter of the dispatch.
\<close>

text \<open>
  Modelled from the spec: the type \<open>bf_t\<close> of the missing header. A Value has a sign
  (meaningful for zero too), a signed exponent, and a mantissa: a sequence of
  fixed-width limbs, least significant first, whose most significant limb has its top
  bit set; the special states have no mantissa. The spec leaves the limb width open:
  limbs are 32 bits wide here, as on the Emscripten target. The number a finite
  non-zero Value stands for is \<open>\<plusminus> limbs_nat tab * 2 ^ (expn - 32 * length tab)\<close>.
\<close>

type_synonym limb = "32 word"

record bf_t =
  sign :: bool
  expn :: int
  tab :: "limb list"

text \<open>
  Modelled from the spec: the reserved exponents \<open>BF_EXP_ZERO\<close>, \<open>BF_EXP_INF\<close> and
  \<open>BF_EXP_NAN\<close> of the missing header, which encode zero, infinity (of either sign) and
  NaN. The spec names no numbers: they are the least and the two greatest 32-bit
  signed integers here.
\<close>

definition BF_EXP_ZERO :: int where
  "BF_EXP_ZERO = - (2 ^ 31)"

definition BF_EXP_INF :: int where
  "BF_EXP_INF = 2 ^ 31 - 2"

definition BF_EXP_NAN :: int where
  "BF_EXP_NAN = 2 ^ 31 - 1"

text \<open>
  Modelled from the spec: the status bits \<open>BF_ST_...\<close> of the missing header. The status
  code is an integer of OR-able bits for invalid operation, division by zero,
  overflow, underflow and inexact result; 0 is the exact status.
\<close>

definition BF_ST_INVALID_OP :: int where
  "BF_ST_INVALID_OP = 1"

definition BF_ST_DIVIDE_ZERO :: int where
  "BF_ST_DIVIDE_ZERO = 2"

definition BF_ST_OVERFLOW :: int where
  "BF_ST_OVERFLOW = 4"

definition BF_ST_UNDERFLOW :: int where
  "BF_ST_UNDERFLOW = 8"

definition BF_ST_INEXACT :: int where
  "BF_ST_INEXACT = 16"

text \<open>
  Modelled from the spec: the rounding modes \<open>bf_rnd_t\<close> of the missing header: to
  nearest with ties to even, toward zero, toward minus infinity, toward plus
  infinity, to nearest with ties away from zero, away from zero, and faithful.
\<close>

datatype bf_rnd_t = BF_RNDN | BF_RNDZ | BF_RNDD | BF_RNDU | BF_RNDNA | BF_RNDA | BF_RNDF

text \<open>
  Modelled from the spec: the type \<open>bf_flags_t\<close> of the missing header. The flag bundle
  combines the rounding mode selector, the exponent range descriptor (the number of
  exponent bits) and the behavioural modifier that allows subnormal results. It is
  pure input. The spec gives no bit positions, so the bundle is the record of its
  three parts.
\<close>

record bf_flags_t =
  rnd_mode :: bf_rnd_t
  exp_bits :: nat
  subnormal :: bool

text \<open>
  Modelled from the spec: \<open>bf_get_exp_bits(flags)\<close> of the missing header reads the
  number of exponent bits of the bundle.
\<close>

definition bf_get_exp_bits :: "bf_flags_t \<Rightarrow> nat" where
  "bf_get_exp_bits flags = exp_bits flags"

text \<open>
  Modelled from the spec: the test \<open>flags & BF_FLAG_SUBNORMAL\<close> against the flag of the
  missing header reads the subnormal modifier of the bundle.
\<close>

definition BF_FLAG_SUBNORMAL :: "bf_flags_t \<Rightarrow> bool" where
  "BF_FLAG_SUBNORMAL flags = subnormal flags"

subsection \<open>Classification and the special states\<close>

text \<open>
  Modelled from the spec: \<open>bf_is_finite\<close>, \<open>bf_is_nan\<close> and \<open>bf_is_zero\<close> of the missing
  header. The three predicates are read off the exponent sentinel.
\<close>

definition bf_is_finite :: "bf_t \<Rightarrow> bool" where
  "bf_is_finite a = (expn a < BF_EXP_INF)"

definition bf_is_nan :: "bf_t \<Rightarrow> bool" where
  "bf_is_nan a = (expn a = BF_EXP_NAN)"

definition bf_is_zero :: "bf_t \<Rightarrow> bool" where
  "bf_is_zero a = (expn a = BF_EXP_ZERO)"

text \<open>
  Modelled from the spec: the special states NaN, signed infinity and signed zero,
  which have no mantissa. NaN is stored with a clear sign.
\<close>

definition bf_nan :: bf_t where
  "bf_nan = \<lparr>sign = False, expn = BF_EXP_NAN, tab = []\<rparr>"

definition bf_inf :: "bool \<Rightarrow> bf_t" where
  "bf_inf is_neg = \<lparr>sign = is_neg, expn = BF_EXP_INF, tab = []\<rparr>"

definition bf_zero :: "bool \<Rightarrow> bf_t" where
  "bf_zero is_neg = \<lparr>sign = is_neg, expn = BF_EXP_ZERO, tab = []\<rparr>"

text \<open>
  Modelled from the spec: \<open>bf_set(r, a)\<close> of the missing engine. Assignment copies the
  full numeric value (sign, exponent, mantissa) and returns a status; its only
  failure is a failure of the allocator, and the allocator of the model does not
  fail.
\<close>

definition bf_set :: "bf_t \<Rightarrow> int \<times> bf_t" where
  "bf_set a = (0, a)"

text \<open>
  Modelled from the spec: \<open>bf_neg(r)\<close> of the missing header. Negation flips the sign
  and leaves the magnitude as it is.
\<close>

definition bf_neg :: "bf_t \<Rightarrow> bf_t" where
  "bf_neg r = r\<lparr>sign := \<not> sign r\<rparr>"

subsection \<open>Mantissas as natural numbers\<close>

text \<open>
  The natural number of a limb sequence, the \<open>l\<close> limbs of a natural number, and the
  number of bits of a natural number.
\<close>

fun limbs_nat :: "limb list \<Rightarrow> nat" where
  "limbs_nat [] = 0"
| "limbs_nat (w # ws) = unat w + 2 ^ 32 * limbs_nat ws"

fun nat_limbs :: "nat \<Rightarrow> nat \<Rightarrow> limb list" where
  "nat_limbs 0 x = []"
| "nat_limbs (Suc l) x = word_of_nat x # nat_limbs l (x div 2 ^ 32)"

fun bitlen :: "nat \<Rightarrow> nat" where
  "bitlen n = (if n = 0 then 0 else Suc (bitlen (n div 2)))"

declare bitlen.simps [simp del]

text \<open>
  Modelled from the spec: the normal form of a Value. \<open>bf_mant\<close> and \<open>bf_exp2\<close> read a
  finite Value as the integer mantissa \<open>m\<close> and the exponent \<open>e\<close> of \<open>m * 2 ^ e\<close>; \<open>bf_norm\<close>
  builds the Value of \<open>m * 2 ^ e\<close> for \<open>m > 0\<close>: the top bit of the top limb is set and
  there is no zero limb at the low end.
\<close>

definition bf_mant :: "bf_t \<Rightarrow> nat" where
  "bf_mant a = limbs_nat (tab a)"

definition bf_exp2 :: "bf_t \<Rightarrow> int" where
  "bf_exp2 a = expn a - 32 * int (length (tab a))"

definition bf_norm :: "bool \<Rightarrow> nat \<Rightarrow> int \<Rightarrow> bf_t" where
  "bf_norm is_neg m e =
     (let n = bitlen m;
          l = (n + 31) div 32
      in \<lparr>sign = is_neg, expn = e + int n,
          tab = dropWhile (\<lambda>w. w = 0) (nat_limbs l (m * 2 ^ (32 * l - n)))\<rparr>)"

subsection \<open>Rounding an exact result\<close>

text \<open>
  The rounding routine of the engine is not among the sources. By the spec every
  precision-sensitive operation rounds the exact mathematical result to \<open>prec\<close> bits
  per the rounding mode of the flag bundle and reports inexact, overflow and
  underflow in the status; the representable range follows from the exponent bits
  of the bundle, and the subnormal modifier lets a result below the range keep the
  bits above the smallest exponent.
\<close>

text \<open>
  Modelled from the spec: the rounding decision of the missing engine. \<open>rnd_add_one\<close>
  says whether the kept bits are incremented: \<open>bit1\<close> is the first discarded bit,
  \<open>bit0\<close> says that a lower discarded bit is set, \<open>odd_q\<close> that the last kept bit is set.
\<close>

definition rnd_add_one :: "bf_rnd_t \<Rightarrow> bool \<Rightarrow> bool \<Rightarrow> bool \<Rightarrow> bool \<Rightarrow> bool" where
  "rnd_add_one rnd is_neg bit1 bit0 odd_q =
     (case rnd of
        BF_RNDN \<Rightarrow> bit1 \<and> (bit0 \<or> odd_q)
      | BF_RNDZ \<Rightarrow> False
      | BF_RNDD \<Rightarrow> is_neg \<and> (bit1 \<or> bit0)
      | BF_RNDU \<Rightarrow> (\<not> is_neg) \<and> (bit1 \<or> bit0)
      | BF_RNDNA \<Rightarrow> bit1
      | BF_RNDA \<Rightarrow> bit1 \<or> bit0
      | BF_RNDF \<Rightarrow> bit1)"

text \<open>
  Modelled from the spec: the result of an overflow in the missing engine. The
  status has the overflow and the inexact bit; the result is the infinity, or the
  largest finite number of the precision when the mode rounds toward it.
\<close>

definition bf_set_overflow :: "bool \<Rightarrow> nat \<Rightarrow> bf_flags_t \<Rightarrow> int \<times> bf_t" where
  "bf_set_overflow is_neg prec flags =
     (let rnd = rnd_mode flags;
          e_max = 2 ^ (bf_get_exp_bits flags - 1)
      in (BF_ST_OVERFLOW OR BF_ST_INEXACT,
          if rnd = BF_RNDN \<or> rnd = BF_RNDNA \<or> rnd = BF_RNDA
             \<or> (rnd = BF_RNDD \<and> is_neg) \<or> (rnd = BF_RNDU \<and> \<not> is_neg)
          then bf_inf is_neg
          else bf_norm is_neg (2 ^ prec - 1) (e_max - int prec)))"

text \<open>
  Modelled from the spec: the rounding routine of the missing engine.
  \<open>bf_round_exact is_neg m e prec flags\<close> rounds the exact value \<open>\<plusminus> m * 2 ^ e\<close> to \<open>prec\<close>
  bits. With \<open>n\<close> the bit length of \<open>m\<close>, the value lies in
  \<open>[2 ^ (e + n - 1), 2 ^ (e + n))\<close>; the exponent range is, as in IEEE 754, from
  \<open>e_min = 3 - 2 ^ (exp_bits - 1)\<close> to \<open>e_max = 2 ^ (exp_bits - 1)\<close>. Below \<open>e_min\<close> a
  subnormal result keeps \<open>prec - (e_min - (e + n))\<close> bits. A result that fits is
  returned as it is with status 0.
\<close>

definition bf_round_exact :: "bool \<Rightarrow> nat \<Rightarrow> int \<Rightarrow> nat \<Rightarrow> bf_flags_t \<Rightarrow> int \<times> bf_t" where
  "bf_round_exact is_neg m e prec flags =
     (if m = 0 then (0, bf_zero is_neg)
      else
        let n = int (bitlen m);
            e_range = 2 ^ (bf_get_exp_bits flags - 1);
            e_min = - e_range + 3;
            e_max = e_range;
            prec1 = (if e + n < e_min \<and> BF_FLAG_SUBNORMAL flags
                     then int prec - (e_min - (e + n)) else int prec);
            k = n - prec1;
            q = (if k \<le> 0 then m else m div 2 ^ nat k);
            bit1 = (0 < k \<and> odd (m div 2 ^ (nat k - 1)));
            bit0 = (1 < k \<and> m mod 2 ^ (nat k - 1) \<noteq> 0);
            inexact = (bit1 \<or> bit0);
            add_one = rnd_add_one (rnd_mode flags) is_neg bit1 bit0 (odd q);
            ret = (if inexact then BF_ST_INEXACT else 0);
            m' = q + of_bool add_one;
            e' = (if k \<le> 0 then e else e + k);
            ex' = e' + int (bitlen m')
        in if prec1 \<le> 0 then
             (ret OR BF_ST_UNDERFLOW OR BF_ST_INEXACT,
              if add_one then bf_norm is_neg 1 e' else bf_zero is_neg)
           else if ex' < e_min \<and> \<not> BF_FLAG_SUBNORMAL flags then
             (ret OR BF_ST_UNDERFLOW OR BF_ST_INEXACT, bf_zero is_neg)
           else if e_max < ex' then bf_set_overflow is_neg prec flags
           else
             (if ex' < e_min \<and> inexact then ret OR BF_ST_UNDERFLOW else ret,
              bf_norm is_neg m' e'))"

subsection \<open>The operations of the engine that are given definitions\<close>

text \<open>
  Modelled from the spec: \<open>bf_round(r, prec, flags)\<close> of the missing engine.
  Round-to-precision applies the rounding contract to the Value itself; a special
  state (no mantissa) is left as it is with status 0.
\<close>

definition bf_round :: "bf_t \<Rightarrow> nat \<Rightarrow> bf_flags_t \<Rightarrow> int \<times> bf_t" where
  "bf_round r prec flags =
     (if tab r = [] then (0, r)
      else bf_round_exact (sign r) (bf_mant r) (bf_exp2 r) prec flags)"

text \<open>
  Modelled from the spec: \<open>bf_mul_2exp(r, e, prec, flags)\<close> of the missing engine
  multiplies \<open>r\<close> by \<open>2 ^ e\<close> and rounds; a special state is left as it is.
\<close>

definition bf_mul_2exp :: "bf_t \<Rightarrow> int \<Rightarrow> nat \<Rightarrow> bf_flags_t \<Rightarrow> int \<times> bf_t" where
  "bf_mul_2exp r e prec flags =
     (if tab r = [] then (0, r)
      else bf_round_exact (sign r) (bf_mant r) (bf_exp2 r + e) prec flags)"

text \<open>
  Modelled from the spec: \<open>bf_set_ui(r, a)\<close> of the missing engine. Integers are the
  zero-fractional-exponent case of the same representation: an unsigned machine
  integer is stored exactly, with status 0.
\<close>

definition bf_set_ui :: "nat \<Rightarrow> int \<times> bf_t" where
  "bf_set_ui a = (if a = 0 then (0, bf_zero False) else (0, bf_norm False a 0))"

text \<open>
  Modelled from the spec: \<open>bf_set_si(r, a)\<close> of the missing engine stores a signed
  machine integer exactly: the magnitude, and the sign set when \<open>a\<close> is negative.
\<close>

definition bf_set_si :: "int \<Rightarrow> int \<times> bf_t" where
  "bf_set_si a =
     (if a < 0 then (case bf_set_ui (nat (- a)) of (ret, r) \<Rightarrow> (ret, r\<lparr>sign := True\<rparr>))
      else bf_set_ui (nat a))"

text \<open>
  The integer \<open>k\<close> with \<open>a = k * 2 ^ e\<close>, for a finite Value \<open>a\<close> and \<open>e\<close> not above its own
  exponent \<open>bf_exp2 a\<close>.
\<close>

definition bf_int_at :: "bf_t \<Rightarrow> int \<Rightarrow> int" where
  "bf_int_at a e = (if sign a then - 1 else 1) * int (bf_mant a) * 2 ^ nat (bf_exp2 a - e)"

text \<open>
  Modelled from the spec: \<open>bf_add(r, a, b, prec, flags)\<close> of the missing engine.
  Addition rounds the exact sum. A NaN operand gives NaN; infinities of opposite
  signs are an invalid operation; an exact zero sum of non-zero operands or of
  zeros of opposite signs is \<open>-0\<close> when rounding toward minus infinity and \<open>+0\<close>
  otherwise, as in IEEE 754.
\<close>

definition bf_add :: "bf_t \<Rightarrow> bf_t \<Rightarrow> nat \<Rightarrow> bf_flags_t \<Rightarrow> int \<times> bf_t" where
  "bf_add a b prec flags =
     (if bf_is_nan a \<or> bf_is_nan b then (0, bf_nan)
      else if expn a = BF_EXP_INF then
        (if expn b = BF_EXP_INF \<and> sign a \<noteq> sign b then (BF_ST_INVALID_OP, bf_nan)
         else (0, bf_inf (sign a)))
      else if expn b = BF_EXP_INF then (0, bf_inf (sign b))
      else if bf_is_zero a \<and> bf_is_zero b then
        (0, bf_zero (if sign a = sign b then sign a else rnd_mode flags = BF_RNDD))
      else if bf_is_zero b then bf_round a prec flags
      else if bf_is_zero a then bf_round b prec flags
      else
        let e = min (bf_exp2 a) (bf_exp2 b);
            s = bf_int_at a e + bf_int_at b e
        in if s = 0 then (0, bf_zero (rnd_mode flags = BF_RNDD))
           else bf_round_exact (s < 0) (nat \<bar>s\<bar>) e prec flags)"

text \<open>
  Modelled from the spec: \<open>bf_add_si(r, a, b1, prec, flags)\<close> of the missing engine adds
  the machine integer \<open>b1\<close> to \<open>a\<close>.
\<close>

definition bf_add_si :: "bf_t \<Rightarrow> int \<Rightarrow> nat \<Rightarrow> bf_flags_t \<Rightarrow> int \<times> bf_t" where
  "bf_add_si a b1 prec flags = bf_add a (snd (bf_set_si b1)) prec flags"

text \<open>
  Modelled from the spec: \<open>bf_div(r, a, b, prec, flags)\<close> of the missing engine.
  Division rounds the exact quotient; division of a finite non-zero operand by zero
  yields signed infinity and sets the division-by-zero bit, unless the dividend is
  zero as well, which is an invalid operation giving NaN. The sign of the result is
  the exclusive or of the operand signs. For finite non-zero operands the quotient
  is taken to \<open>prec + 2\<close> bits and more, with a last bit that says whether the
  remainder is non-zero, and then rounded: that is the rounding of the exact
  quotient.
\<close>

definition bf_div :: "bf_t \<Rightarrow> bf_t \<Rightarrow> nat \<Rightarrow> bf_flags_t \<Rightarrow> int \<times> bf_t" where
  "bf_div a b prec flags =
     (let r_sign = (sign a \<noteq> sign b) in
      if BF_EXP_INF \<le> expn a \<or> BF_EXP_INF \<le> expn b then
        (if bf_is_nan a \<or> bf_is_nan b then (0, bf_nan)
         else if expn a = BF_EXP_INF \<and> expn b = BF_EXP_INF then (BF_ST_INVALID_OP, bf_nan)
         else if expn a = BF_EXP_INF then (0, bf_inf r_sign)
         else (0, bf_zero r_sign))
      else if bf_is_zero a then
        (if bf_is_zero b then (BF_ST_INVALID_OP, bf_nan) else (0, bf_zero r_sign))
      else if bf_is_zero b then (BF_ST_DIVIDE_ZERO, bf_inf r_sign)
      else
        let k = prec + 2 + bitlen (bf_mant b);
            num = bf_mant a * 2 ^ k;
            quo = num div bf_mant b;
            sticky = (if num mod bf_mant b = 0 then 0 else 1)
        in bf_round_exact r_sign (2 * quo + sticky) (bf_exp2 a - bf_exp2 b - int k - 1) prec flags)"

text \<open>
  Modelled from the spec: the comparison of magnitudes of the missing engine, by
  exponent first (the sentinels order zero below and infinity above every finite
  value), then by the mantissas aligned at their top limbs.
\<close>

definition bf_cmpu :: "bf_t \<Rightarrow> bf_t \<Rightarrow> int" where
  "bf_cmpu a b =
     (if expn a \<noteq> expn b then (if expn a < expn b then - 1 else 1)
      else
        let len = max (length (tab a)) (length (tab b));
            v1 = bf_mant a * 2 ^ (32 * (len - length (tab a)));
            v2 = bf_mant b * 2 ^ (32 * (len - length (tab b)))
        in if v1 < v2 then - 1 else if v2 < v1 then 1 else 0)"

text \<open>
  Modelled from the spec: \<open>bf_cmp(a, b)\<close> of the missing engine. Comparison follows the
  IEEE 754 order of signed magnitudes with \<open>-0 = +0\<close>; the outcomes are less (-1),
  equal (0), greater (1) and, when an operand is NaN, unordered (2).
\<close>

definition bf_cmp :: "bf_t \<Rightarrow> bf_t \<Rightarrow> int" where
  "bf_cmp a b =
     (if bf_is_nan a \<or> bf_is_nan b then 2
      else if sign a \<noteq> sign b then
        (if bf_is_zero a \<and> bf_is_zero b then 0 else 1 - 2 * of_bool (sign a))
      else if sign a then - bf_cmpu a b else bf_cmpu a b)"

section \<open>The facade\<close>

subsection \<open>Handles\<close>

text \<open>
  The facade works on handles: pointers to Values that live in a store (the Values
  made by \<open>new_\<close> and not yet given to \<open>delete_\<close>). Following a null pointer or a pointer
  to no live Value is undefined in C; the model returns a fault there. A call that
  writes its result through \<open>r\<close> needs \<open>r\<close> to point to a live Value.
\<close>

datatype fault = Null_Pointer | Wild_Pointer

type_synonym 'a res = "fault + 'a"

type_synonym store = "addr \<rightharpoonup> bf_t"

definition load :: "store \<Rightarrow> addr \<Rightarrow> bf_t res" where
  "load s p =
     (if p = NULL then Inl Null_Pointer
      else case s p of None \<Rightarrow> Inl Wild_Pointer | Some v \<Rightarrow> Inr v)"

text \<open>
  The calling shapes of the engine: \<open>call_r\<close> works on \<open>r\<close> in place, \<open>call_c\<close> writes a
  result that has no operand, \<open>call_ra\<close> reads \<open>a\<close> and \<open>call_rab\<close> reads \<open>a\<close> and \<open>b\<close>; the
  operands are read before the result is written, so a result handle may be one of
  the operand handles.
\<close>

definition call_r :: "store \<Rightarrow> addr \<Rightarrow> (bf_t \<Rightarrow> int \<times> bf_t) \<Rightarrow> (int \<times> store) res" where
  "call_r s r f =
     (case load s r of Inl x \<Rightarrow> Inl x
      | Inr v \<Rightarrow> (case f v of (ret, v') \<Rightarrow> Inr (ret, s(r \<mapsto> v'))))"

definition call_c :: "store \<Rightarrow> addr \<Rightarrow> int \<times> bf_t \<Rightarrow> (int \<times> store) res" where
  "call_c s r c = call_r s r (\<lambda>_. c)"

definition call_ra :: "store \<Rightarrow> addr \<Rightarrow> addr \<Rightarrow> (bf_t \<Rightarrow> int \<times> bf_t) \<Rightarrow> (int \<times> store) res" where
  "call_ra s r a f =
     (case load s a of Inl x \<Rightarrow> Inl x
      | Inr va \<Rightarrow> call_c s r (f va))"

definition call_rab ::
  "store \<Rightarrow> addr \<Rightarrow> addr \<Rightarrow> addr \<Rightarrow> (bf_t \<Rightarrow> bf_t \<Rightarrow> int \<times> bf_t) \<Rightarrow> (int \<times> store) res" where
  "call_rab s r a b f =
     (case load s a of Inl x \<Rightarrow> Inl x
      | Inr va \<Rightarrow> call_ra s r b (f va))"

subsection \<open>The operations of the engine that are parameters\<close>

text \<open>
  The remaining routines of the engine are not among the sources and no property
  below depends on what they compute: they are parameters of the dispatch. By the
  spec every operation is a pure function of its explicit inputs, so a routine with
  one result is a function from the operand Values to the status and the result.
  The two routines with two results take the store and the handles in the order in
  which the facade passes them. The rounding mode of \<open>calc2\<close> is the C \<open>int\<close> it is
  declared as.
\<close>

record engine =
  bf_sub :: "bf_t \<Rightarrow> bf_t \<Rightarrow> nat \<Rightarrow> bf_flags_t \<Rightarrow> int \<times> bf_t"
  bf_mul :: "bf_t \<Rightarrow> bf_t \<Rightarrow> nat \<Rightarrow> bf_flags_t \<Rightarrow> int \<times> bf_t"
  bf_logic_or :: "bf_t \<Rightarrow> bf_t \<Rightarrow> int \<times> bf_t"
  bf_logic_xor :: "bf_t \<Rightarrow> bf_t \<Rightarrow> int \<times> bf_t"
  bf_logic_and :: "bf_t \<Rightarrow> bf_t \<Rightarrow> int \<times> bf_t"
  bf_sqrt :: "bf_t \<Rightarrow> nat \<Rightarrow> bf_flags_t \<Rightarrow> int \<times> bf_t"
  bf_sqrtrem :: "store \<Rightarrow> addr \<Rightarrow> addr \<Rightarrow> addr \<Rightarrow> (int \<times> store) res"
  bf_rint :: "bf_t \<Rightarrow> bf_flags_t \<Rightarrow> int \<times> bf_t"
  bf_const_log2 :: "nat \<Rightarrow> bf_flags_t \<Rightarrow> int \<times> bf_t"
  bf_const_pi :: "nat \<Rightarrow> bf_flags_t \<Rightarrow> int \<times> bf_t"
  bf_exp :: "bf_t \<Rightarrow> nat \<Rightarrow> bf_flags_t \<Rightarrow> int \<times> bf_t"
  bf_log :: "bf_t \<Rightarrow> nat \<Rightarrow> bf_flags_t \<Rightarrow> int \<times> bf_t"
  bf_pow :: "bf_t \<Rightarrow> bf_t \<Rightarrow> nat \<Rightarrow> bf_flags_t \<Rightarrow> int \<times> bf_t"
  bf_cos :: "bf_t \<Rightarrow> nat \<Rightarrow> bf_flags_t \<Rightarrow> int \<times> bf_t"
  bf_sin :: "bf_t \<Rightarrow> nat \<Rightarrow> bf_flags_t \<Rightarrow> int \<times> bf_t"
  bf_tan :: "bf_t \<Rightarrow> nat \<Rightarrow> bf_flags_t \<Rightarrow> int \<times> bf_t"
  bf_atan :: "bf_t \<Rightarrow> nat \<Rightarrow> bf_flags_t \<Rightarrow> int \<times> bf_t"
  bf_atan2 :: "bf_t \<Rightarrow> bf_t \<Rightarrow> nat \<Rightarrow> bf_flags_t \<Rightarrow> int \<times> bf_t"
  bf_asin :: "bf_t \<Rightarrow> nat \<Rightarrow> bf_flags_t \<Rightarrow> int \<times> bf_t"
  bf_acos :: "bf_t \<Rightarrow> nat \<Rightarrow> bf_flags_t \<Rightarrow> int \<times> bf_t"
  bf_rem :: "bf_t \<Rightarrow> bf_t \<Rightarrow> nat \<Rightarrow> bf_flags_t \<Rightarrow> int \<Rightarrow> int \<times> bf_t"
  bf_divrem :: "store \<Rightarrow> addr \<Rightarrow> addr \<Rightarrow> addr \<Rightarrow> addr \<Rightarrow> nat \<Rightarrow> bf_flags_t \<Rightarrow> int \<Rightarrow> (int \<times> store) res"

subsection \<open>Dispatch\<close>

text \<open>
  \<open>calc(method, r, a, b, prec, flags)\<close>, case by case in the order of the source. The
  result is the returned status and the new store, or a fault. The precision, a
  \<open>double\<close> in the signature that the engine takes as an unsigned integer, is a
  natural number of bits. The cases \<open>n\<close>, \<open>b\<close> and \<open>g\<close> and the type limits \<open>z\<close>, \<open>Z\<close> and \<open>y\<close>
  return 0 whatever the engine returns on the way; the type limits start from the
  constant 1, and \<open>e_range\<close> is \<open>(limb_t)1 << (bf_get_exp_bits(flags) - 1)\<close>. A selector
  with no case falls out of the switch to \<open>return BF_ST_INVALID_OP\<close>.
\<close>

definition calc ::
  "engine \<Rightarrow> store \<Rightarrow> char \<Rightarrow> addr \<Rightarrow> addr \<Rightarrow> addr \<Rightarrow> nat \<Rightarrow> bf_flags_t \<Rightarrow> (int \<times> store) res" where
  "calc E s method r a b prec flags =
     (if method = CHR ''+'' then call_rab s r a b (\<lambda>x y. bf_add x y prec flags)
      else if method = CHR ''-'' then call_rab s r a b (\<lambda>x y. bf_sub E x y prec flags)
      else if method = CHR ''*'' then call_rab s r a b (\<lambda>x y. bf_mul E x y prec flags)
      else if method = CHR ''/'' then call_rab s r a b (\<lambda>x y. bf_div x y prec flags)
      else if method = CHR ''|'' then call_rab s r a b (bf_logic_or E)
      else if method = CHR ''^'' then call_rab s r a b (bf_logic_xor E)
      else if method = CHR ''&'' then call_rab s r a b (bf_logic_and E)
      else if method = CHR ''s'' then call_ra s r a (\<lambda>x. bf_sqrt E x prec flags)
      else if method = CHR ''m'' then bf_sqrtrem E s r a b
      else if method = CHR ''r'' then call_r s r (\<lambda>v. bf_round v prec flags)
      else if method = CHR ''i'' then call_r s r (\<lambda>v. bf_rint E v flags)
      else if method = CHR ''n'' then call_r s r (\<lambda>v. (0, bf_neg v))
      else if method = CHR ''b'' then call_r s r (\<lambda>v. (0, v\<lparr>sign := False\<rparr>))
      else if method = CHR ''g'' then
        call_ra s r a (\<lambda>x.
          (0, if bf_is_nan x \<or> bf_is_zero x then snd (bf_set x)
              else snd (bf_set_si (1 - 2 * of_bool (sign x)))))
      else if method = CHR ''2'' then call_c s r (bf_const_log2 E prec flags)
      else if method = CHR ''3'' then call_c s r (bf_const_pi E prec flags)
      else if method = CHR ''E'' then call_ra s r a (\<lambda>x. bf_exp E x prec flags)
      else if method = CHR ''L'' then call_ra s r a (\<lambda>x. bf_log E x prec flags)
      else if method = CHR ''P'' then call_rab s r a b (\<lambda>x y. bf_pow E x y prec flags)
      else if method = CHR ''C'' then call_ra s r a (\<lambda>x. bf_cos E x prec flags)
      else if method = CHR ''S'' then call_ra s r a (\<lambda>x. bf_sin E x prec flags)
      else if method = CHR ''T'' then call_ra s r a (\<lambda>x. bf_tan E x prec flags)
      else if method = CHR ''4'' then call_ra s r a (\<lambda>x. bf_atan E x prec flags)
      else if method = CHR ''5'' then call_rab s r a b (\<lambda>x y. bf_atan2 E x y prec flags)
      else if method = CHR ''6'' then call_ra s r a (\<lambda>x. bf_asin E x prec flags)
      else if method = CHR ''7'' then call_ra s r a (\<lambda>x. bf_acos E x prec flags)
      else if method = CHR ''z'' \<or> method = CHR ''Z'' then
        (let e_range = (2 :: int) ^ (bf_get_exp_bits flags - 1);
             r1 = snd (bf_set_ui 1)
         in if method = CHR ''z'' then
              (let e = - e_range + 2;
                   e' = (if BF_FLAG_SUBNORMAL flags then e - (int prec - 1) else e)
               in call_c s r (0, snd (bf_mul_2exp r1 e' prec flags)))
            else
              (let r2 = snd (bf_mul_2exp r1 (int prec) prec flags);
                   r3 = snd (bf_add_si r2 (- 1) prec flags)
               in call_c s r (0, snd (bf_mul_2exp r3 (e_range - int prec) prec flags))))
      else if method = CHR ''y'' then
        (let r1 = snd (bf_set_ui 1)
         in call_c s r (0, snd (bf_mul_2exp r1 (1 - int prec) prec flags)))
      else Inr (BF_ST_INVALID_OP, s))"

text \<open>
  \<open>calc2(method, r, a, b, prec, flags, rnd_mode, q)\<close>: \<open>%\<close> calls
  \<open>bf_rem(r, a, b, prec, flags, rnd_mode)\<close>, \<open>d\<close> calls
  \<open>bf_divrem(q, r, a, b, prec, flags, rnd_mode)\<close>, and every other selector falls out of
  the switch to \<open>return BF_ST_INVALID_OP\<close>.
\<close>

definition calc2 ::
  "engine \<Rightarrow> store \<Rightarrow> char \<Rightarrow> addr \<Rightarrow> addr \<Rightarrow> addr \<Rightarrow> nat \<Rightarrow> bf_flags_t \<Rightarrow> int \<Rightarrow> addr
     \<Rightarrow> (int \<times> store) res" where
  "calc2 E s method r a b prec flags rnd q =
     (if method = CHR ''%'' then call_rab s r a b (\<lambda>x y. bf_rem E x y prec flags rnd)
      else if method = CHR ''d'' then bf_divrem E s q r a b prec flags rnd
      else Inr (BF_ST_INVALID_OP, s))"

text \<open>The selectors that have a case in \<open>calc\<close> and in \<open>calc2\<close>.\<close>

definition calc_selectors :: "char set" where
  "calc_selectors = set ''+-*/|^&smrinbg23ELPCST4567zZy''"

definition calc2_selectors :: "char set" where
  "calc2_selectors = set ''%d''"

subsection \<open>Comparison\<close>

text \<open>
  \<open>cmp_(a, b)\<close> returns \<open>bf_cmp(a, b)\<close>. (A name cannot end in an underscore here: the
  exported functions \<open>cmp_\<close>, \<open>get_number_\<close> and \<open>bits_\<close> are \<open>cmp_api\<close>, \<open>get_number_api\<close>
  and \<open>bits_api\<close>.)
\<close>

definition cmp_api :: "store \<Rightarrow> addr \<Rightarrow> addr \<Rightarrow> int res" where
  "cmp_api s a b =
     (case load s a of Inl x \<Rightarrow> Inl x
      | Inr va \<Rightarrow> (case load s b of Inl x \<Rightarrow> Inl x | Inr vb \<Rightarrow> Inr (bf_cmp va vb)))"

subsection \<open>Conversion to the host's double\<close>

text \<open>
  A host double is an IEEE 754 binary64 number: it is modelled by the Value it
  denotes, which has at most 53 mantissa bits and an exponent in the binary64 range
  (11 exponent bits, subnormals allowed), or is a zero, an infinity or NaN. \<open>NAN\<close> is
  the macro of \<open>math.h\<close>; \<open>binary64\<close> is the flag bundle of the format.
\<close>

datatype double = Double bf_t

definition NAN :: double where
  "NAN = Double bf_nan"

definition binary64 :: "bf_rnd_t \<Rightarrow> bf_flags_t" where
  "binary64 rnd = \<lparr>rnd_mode = rnd, exp_bits = 11, subnormal = True\<rparr>"

text \<open>
  Modelled from the spec: \<open>bf_get_float64(a, pres, rnd_mode)\<close> of the missing engine.
  The conversion rounds according to the supplied mode, stores the double through
  \<open>pres\<close> and returns the status; it stores NaN, with the status of the rounding, when
  the magnitude is not representable (the rounding overflows).
\<close>

definition bf_get_float64 :: "bf_t \<Rightarrow> double \<Rightarrow> bf_rnd_t \<Rightarrow> int \<times> double" where
  "bf_get_float64 a pres rnd =
     (if bf_is_nan a then (0, NAN)
      else case bf_round a 53 (binary64 rnd) of
        (ret, b) \<Rightarrow> if ret AND BF_ST_OVERFLOW \<noteq> 0 then (ret, NAN) else (ret, Double b))"

text \<open>
  \<open>get_number_(a, rnd_mode)\<close>:
  \<^verbatim>\<open>double ret = NAN; bf_get_float64(a, &ret, rnd_mode); return ret;\<close>
  The conversion routine is the parameter \<open>conv\<close>: it takes the Value, the double that
  \<open>ret\<close> holds before the call and the rounding mode, and gives the status it returns
  and the double that \<open>ret\<close> holds after the call. The engine's routine is
  \<open>bf_get_float64\<close> above.
\<close>

definition get_number_api ::
  "(bf_t \<Rightarrow> double \<Rightarrow> bf_rnd_t \<Rightarrow> int \<times> double) \<Rightarrow> store \<Rightarrow> addr \<Rightarrow> bf_rnd_t \<Rightarrow> double res" where
  "get_number_api conv s a rnd =
     (case load s a of Inl x \<Rightarrow> Inl x
      | Inr va \<Rightarrow> (case conv va NAN rnd of (ret, d) \<Rightarrow> Inr d))"

subsection \<open>The value of a Value\<close>

text \<open>
  The rational number that a finite Value stands for (0 for a zero); it is not meant
  for an infinity or NaN.
\<close>

definition bf_val :: "bf_t \<Rightarrow> rat" where
  "bf_val a = (if sign a then - 1 else 1) * of_nat (bf_mant a) * 2 powi (bf_exp2 a)"

subsection \<open>The precision helper\<close>

text \<open>
  \<open>bits_(n_digits)\<close> is \<open>ceil(n_digits * BITS_PER_DIGIT)\<close> in the host's double
  arithmetic, with \<^verbatim>\<open>#define BITS_PER_DIGIT 3.32192809488736234786\<close>. The literal
  denotes the nearest double, \<open>7480317065143153 * 2 ^ -51\<close>. By IEEE 754 the product of
  two doubles is the exact product rounded to nearest, ties to even, in binary64 (a
  NaN factor gives NaN, an infinite factor times zero is NaN); \<open>ceil\<close> is exact and
  keeps the sign of a zero result.
\<close>

definition BITS_PER_DIGIT :: double where
  "BITS_PER_DIGIT = Double (bf_norm False 7480317065143153 (- 51))"

definition d_mul :: "double \<Rightarrow> double \<Rightarrow> double" where
  "d_mul dx dy =
     (case (dx, dy) of (Double x, Double y) \<Rightarrow>
        Double
          (if bf_is_nan x \<or> bf_is_nan y then bf_nan
           else if expn x = BF_EXP_INF \<or> expn y = BF_EXP_INF then
             (if bf_is_zero x \<or> bf_is_zero y then bf_nan else bf_inf (sign x \<noteq> sign y))
           else if bf_is_zero x \<or> bf_is_zero y then bf_zero (sign x \<noteq> sign y)
           else snd (bf_round_exact (sign x \<noteq> sign y) (bf_mant x * bf_mant y)
                       (bf_exp2 x + bf_exp2 y) 53 (binary64 BF_RNDN))))"

definition bf_ceil_int :: "bf_t \<Rightarrow> int" where
  "bf_ceil_int x =
     (let m = (if sign x then - int (bf_mant x) else int (bf_mant x));
          e = bf_exp2 x
      in if 0 \<le> e then m * 2 ^ nat e else - ((- m) div 2 ^ nat (- e)))"

definition d_ceil :: "double \<Rightarrow> double" where
  "d_ceil dx =
     (case dx of Double x \<Rightarrow>
        Double
          (if tab x = [] then x
           else if bf_ceil_int x = 0 then bf_zero (sign x)
           else snd (bf_set_si (bf_ceil_int x))))"

definition bits_api :: "double \<Rightarrow> double" where
  "bits_api n_digits = d_ceil (d_mul n_digits BITS_PER_DIGIT)"

text \<open>
  The double of a natural number (exact below \<open>2 ^ 53\<close>, which covers every number
  used here), and the integer of an integral double.
\<close>

definition d_of_nat :: "nat \<Rightarrow> double" where
  "d_of_nat n = Double (snd (bf_set_ui n))"

definition d_int :: "double \<Rightarrow> int" where
  "d_int dx = (case dx of Double x \<Rightarrow> bf_ceil_int x)"

text \<open>
  The spec's words for the helper: the ceiling of the digit count times the constant
  3.32192809488736234786, taken exactly.
\<close>

definition BITS_PER_DIGIT_decimal :: rat where
  "BITS_PER_DIGIT_decimal = 332192809488736234786 / 10 ^ 20"

definition digits_to_bits_spec :: "nat \<Rightarrow> int" where
  "digits_to_bits_spec n = \<lceil>of_nat n * BITS_PER_DIGIT_decimal\<rceil>"

subsection \<open>An instance of the parameters\<close>

text \<open>
  For closed examples the parameters of the dispatch are instantiated by routines
  that answer NaN with the invalid-operation status and, for the two routines with
  two results, leave the store as it is.
\<close>

definition nan_engine :: engine where
  "nan_engine =
     \<lparr>bf_sub = (\<lambda>x y p f. (BF_ST_INVALID_OP, bf_nan)),
      bf_mul = (\<lambda>x y p f. (BF_ST_INVALID_OP, bf_nan)),
      bf_logic_or = (\<lambda>x y. (BF_ST_INVALID_OP, bf_nan)),
      bf_logic_xor = (\<lambda>x y. (BF_ST_INVALID_OP, bf_nan)),
      bf_logic_and = (\<lambda>x y. (BF_ST_INVALID_OP, bf_nan)),
      bf_sqrt = (\<lambda>x p f. (BF_ST_INVALID_OP, bf_nan)),
      bf_sqrtrem = (\<lambda>s r a b. Inr (BF_ST_INVALID_OP, s)),
      bf_rint = (\<lambda>x f. (BF_ST_INVALID_OP, bf_nan)),
      bf_const_log2 = (\<lambda>p f. (BF_ST_INVALID_OP, bf_nan)),
      bf_const_pi = (\<lambda>p f. (BF_ST_INVALID_OP, bf_nan)),
      bf_exp = (\<lambda>x p f. (BF_ST_INVALID_OP, bf_nan)),
      bf_log = (\<lambda>x p f. (BF_ST_INVALID_OP, bf_nan)),
      bf_pow = (\<lambda>x y p f. (BF_ST_INVALID_OP, bf_nan)),
      bf_cos = (\<lambda>x p f. (BF_ST_INVALID_OP, bf_nan)),
      bf_sin = (\<lambda>x p f. (BF_ST_INVALID_OP, bf_nan)),
      bf_tan = (\<lambda>x p f. (BF_ST_INVALID_OP, bf_nan)),
      bf_atan = (\<lambda>x p f. (BF_ST_INVALID_OP, bf_nan)),
      bf_atan2 = (\<lambda>x y p f. (BF_ST_INVALID_OP, bf_nan)),
      bf_asin = (\<lambda>x p f. (BF_ST_INVALID_OP, bf_nan)),
      bf_acos = (\<lambda>x p f. (BF_ST_INVALID_OP, bf_nan)),
      bf_rem = (\<lambda>x y p f m. (BF_ST_INVALID_OP, bf_nan)),
      bf_divrem = (\<lambda>s q r a b p f m. Inr (BF_ST_INVALID_OP, s))\<rparr>"

subsection \<open>Values outside the range of a double\<close>

text \<open>
  The magnitude of a Value is not representable as a double when rounding it to
  binary64 in the given mode overflows.
\<close>

definition out_of_double_range :: "bf_t \<Rightarrow> bf_rnd_t \<Rightarrow> bool" where
  "out_of_double_range a rnd =
     (\<not> bf_is_nan a \<and> fst (bf_round a 53 (binary64 rnd)) AND BF_ST_OVERFLOW \<noteq> 0)"

section \<open>Auxiliary facts\<close>

subsection \<open>Evaluating the model on numerals\<close>

lemma bitlen_0 [simp]: "bitlen 0 = 0"
  by (simp add: bitlen.simps)

lemma bitlen_pos: "0 < n \<Longrightarrow> bitlen n = Suc (bitlen (n div 2))"
  by (subst bitlen.simps) simp

lemma bitlen_gt0: "0 < n \<Longrightarrow> 0 < bitlen n"
  by (simp add: bitlen_pos)

lemma bitlen_1 [simp]: "bitlen (Suc 0) = 1"
  by (simp add: bitlen_pos)

lemma bitlen_Bit0 [simp]: "bitlen (numeral (Num.Bit0 k)) = Suc (bitlen (numeral k))"
  by (subst bitlen_pos) simp_all

lemma bitlen_Bit1 [simp]: "bitlen (numeral (Num.Bit1 k)) = Suc (bitlen (numeral k))"
  by (subst bitlen_pos) simp_all

lemma nat_limbs_numeral [simp]:
  "nat_limbs (numeral k) x = word_of_nat x # nat_limbs (pred_numeral k) (x div 2 ^ 32)"
  by (subst numeral_eq_Suc) simp

lemma rnd_add_one_exact [simp]: "rnd_add_one rnd is_neg False False odd_q = False"
  by (cases rnd) (simp_all add: rnd_add_one_def)

text \<open>A result that fits the precision and the exponent range is not changed by rounding.\<close>

lemma bf_round_exact_fits:
  assumes "0 < m" and "bitlen m \<le> prec"
    and "3 - 2 ^ (bf_get_exp_bits flags - 1) \<le> e + int (bitlen m)"
    and "e + int (bitlen m) \<le> 2 ^ (bf_get_exp_bits flags - 1)"
  shows "bf_round_exact is_neg m e prec flags = (0, bf_norm is_neg m e)"
  using assms bitlen_gt0 [of m] by (simp add: bf_round_exact_def Let_def)

lemma bf_set_ui_1: "bf_set_ui (Suc 0) = (0, \<lparr>sign = False, expn = 1, tab = [0x80000000]\<rparr>)"
  by (simp add: bf_set_ui_def bf_norm_def Let_def)

lemma bf_set_si_1: "bf_set_si 1 = (0, \<lparr>sign = False, expn = 1, tab = [0x80000000]\<rparr>)"
  by (simp add: bf_set_si_def bf_set_ui_1)

lemma bf_set_si_m1: "bf_set_si (- 1) = (0, \<lparr>sign = True, expn = 1, tab = [0x80000000]\<rparr>)"
  by (simp add: bf_set_si_def bf_set_ui_1)

lemma load_single: "p \<noteq> 0 \<Longrightarrow> load [p \<mapsto> v] p = Inr v"
  by (simp add: load_def NULL_def)

subsection \<open>The steps of the type limits for 8 exponent bits and 24 bits of precision\<close>

lemma Z_step1:
  assumes "bf_get_exp_bits flags = 8"
  shows "bf_mul_2exp \<lparr>sign = False, expn = 1, tab = [0x80000000]\<rparr> 24 24 flags
           = (0, \<lparr>sign = False, expn = 25, tab = [0x80000000]\<rparr>)"
  using assms
  by (simp add: bf_mul_2exp_def bf_round_exact_def bf_mant_def bf_exp2_def bf_norm_def Let_def)

lemma Z_step2:
  assumes "bf_get_exp_bits flags = 8"
  shows "bf_add_si \<lparr>sign = False, expn = 25, tab = [0x80000000]\<rparr> (- 1) 24 flags
           = (0, \<lparr>sign = False, expn = 24, tab = [0xFFFFFF00]\<rparr>)"
  using assms
  by (simp add: bf_add_si_def bf_add_def bf_set_si_m1 bf_is_nan_def bf_is_zero_def
      BF_EXP_NAN_def BF_EXP_INF_def BF_EXP_ZERO_def bf_int_at_def
      bf_round_exact_def bf_mant_def bf_exp2_def bf_norm_def Let_def)

lemma Z_step3:
  assumes "bf_get_exp_bits flags = 8"
  shows "bf_mul_2exp \<lparr>sign = False, expn = 24, tab = [0xFFFFFF00]\<rparr> 104 24 flags
           = (0, \<lparr>sign = False, expn = 128, tab = [0xFFFFFF00]\<rparr>)"
  using assms
  by (simp add: bf_mul_2exp_def bf_round_exact_def bf_mant_def bf_exp2_def bf_norm_def Let_def)

lemma y_step:
  assumes "bf_get_exp_bits flags = 8"
  shows "bf_mul_2exp \<lparr>sign = False, expn = 1, tab = [0x80000000]\<rparr> (- 23) 24 flags
           = (0, \<lparr>sign = False, expn = - 22, tab = [0x80000000]\<rparr>)"
  using assms
  by (simp add: bf_mul_2exp_def bf_round_exact_def bf_mant_def bf_exp2_def bf_norm_def Let_def)

subsection \<open>Comparison\<close>

lemma bf_cmpu_range: "bf_cmpu x y = - 1 \<or> bf_cmpu x y = 0 \<or> bf_cmpu x y = 1"
  by (simp add: bf_cmpu_def Let_def)

lemma bf_cmp_unordered_iff: "bf_cmp x y = 2 \<longleftrightarrow> bf_is_nan x \<or> bf_is_nan y"
  using bf_cmpu_range [of x y] by (auto simp add: bf_cmp_def)

subsection \<open>A Value beyond the range of a double\<close>

lemma huge_round:
  "bf_round \<lparr>sign = False, expn = 1025, tab = [0x80000000]\<rparr> 53 (binary64 BF_RNDN)
     = (20, bf_inf False)"
  by (simp add: bf_round_def bf_round_exact_def bf_mant_def bf_exp2_def bf_norm_def Let_def
      binary64_def bf_get_exp_bits_def BF_FLAG_SUBNORMAL_def rnd_add_one_def bf_set_overflow_def
      BF_ST_OVERFLOW_def BF_ST_INEXACT_def)

subsection \<open>Bit lengths, limbs and the value of a normalised Value\<close>

lemma bitlen_bounds: "0 < m \<Longrightarrow> 2 ^ (bitlen m - 1) \<le> m \<and> m < 2 ^ bitlen m"
proof (induction m rule: bitlen.induct)
  case (1 n)
  show ?case
  proof (cases "n div 2 = 0")
    case True
    with "1.prems" have "n = 1" by presburger
    then show ?thesis by simp
  next
    case False
    then have pos: "0 < n div 2" by simp
    from "1.prems" have n0: "n \<noteq> 0" by simp
    from "1.IH" [OF n0 pos] have lo: "2 ^ (bitlen (n div 2) - 1) \<le> n div 2"
      and hi: "n div 2 < 2 ^ bitlen (n div 2)" by simp_all
    have bl: "bitlen n = Suc (bitlen (n div 2))" using "1.prems" by (rule bitlen_pos)
    have b1: "0 < bitlen (n div 2)" using pos by (rule bitlen_gt0)
    from lo have "2 * 2 ^ (bitlen (n div 2) - 1) \<le> n" by presburger
    moreover have "2 * 2 ^ (bitlen (n div 2) - 1) = (2::nat) ^ bitlen (n div 2)"
      using b1 by (cases "bitlen (n div 2)") simp_all
    ultimately have l: "2 ^ (bitlen n - 1) \<le> n" using bl by simp
    from hi have "n < 2 * 2 ^ bitlen (n div 2)" by presburger
    then have h: "n < 2 ^ bitlen n" using bl by simp
    from l h show ?thesis by simp
  qed
qed

lemma bitlen_le: "m < 2 ^ p \<Longrightarrow> bitlen m \<le> p"
proof (rule ccontr)
  assume a: "m < 2 ^ p" and n: "\<not> bitlen m \<le> p"
  then have "0 < bitlen m" by simp
  then have m0: "0 < m" by (cases "m = 0") simp_all
  from n have "p \<le> bitlen m - 1" by simp
  then have pw: "(2::nat) ^ p \<le> 2 ^ (bitlen m - 1)" by (rule power_increasing) simp
  from bitlen_bounds [OF m0] have "2 ^ (bitlen m - 1) \<le> m" by simp
  with pw a show False by linarith
qed

lemma length_nat_limbs [simp]: "length (nat_limbs l x) = l"
  by (induction l arbitrary: x) simp_all

lemma limbs_nat_nat_limbs: "x < 2 ^ (32 * l) \<Longrightarrow> limbs_nat (nat_limbs l x) = x"
proof (induction l arbitrary: x)
  case 0
  then show ?case by simp
next
  case (Suc l)
  have "x div 2 ^ 32 < 2 ^ (32 * l)"
    using Suc.prems by (simp add: less_mult_imp_div_less power_add)
  from Suc.IH [OF this] have "limbs_nat (nat_limbs l (x div 2 ^ 32)) = x div 2 ^ 32" .
  moreover have "unat (word_of_nat x :: limb) = x mod 2 ^ 32"
    by (simp add: unat_of_nat)
  ultimately show ?case by simp
qed

lemma limbs_nat_dropWhile:
  "limbs_nat ws = 2 ^ (32 * (length ws - length (dropWhile (\<lambda>w. w = 0) ws)))
                  * limbs_nat (dropWhile (\<lambda>w. w = 0) ws)"
proof (induction ws)
  case Nil
  then show ?case by simp
next
  case (Cons w ws)
  show ?case
  proof (cases "w = 0")
    case True
    have le: "length (dropWhile (\<lambda>w. w = 0) ws) \<le> length ws"
      by (rule length_dropWhile_le)
    then have "Suc (length ws) - length (dropWhile (\<lambda>w. w = 0) ws)
        = Suc (length ws - length (dropWhile (\<lambda>w. w = 0) ws))" by simp
    with True Cons.IH show ?thesis by (simp add: power_add)
  next
    case False
    then show ?thesis by simp
  qed
qed


lemma bf_norm_val:
  assumes "0 < m"
  shows "bf_val (bf_norm s m e) = (if s then - 1 else 1) * of_nat m * 2 powi e"
    and "tab (bf_norm s m e) \<noteq> []"
    and "sign (bf_norm s m e) = s"
    and "expn (bf_norm s m e) = e + int (bitlen m)"
proof -
  define n where "n = bitlen m"
  define l where "l = (n + 31) div 32"
  define x where "x = m * 2 ^ (32 * l - n)"
  define ws where "ws = nat_limbs l x"
  define ws' where "ws' = dropWhile (\<lambda>w. w = 0) ws"
  define d where "d = length ws - length ws'"
  have nl: "n \<le> 32 * l" unfolding l_def by presburger
  have "m < 2 ^ n" using bitlen_bounds [OF assms] by (simp add: n_def)
  then have "m * 2 ^ (32 * l - n) < 2 ^ n * 2 ^ (32 * l - n)" by simp
  also have "\<dots> = 2 ^ (32 * l)" using nl by (simp flip: power_add)
  finally have xlt: "x < 2 ^ (32 * l)" by (simp add: x_def)
  have xpos: "0 < x" using assms by (simp add: x_def)
  have lw: "limbs_nat ws = x" unfolding ws_def using xlt by (rule limbs_nat_nat_limbs)
  have split: "limbs_nat ws = 2 ^ (32 * d) * limbs_nat ws'"
    unfolding d_def ws'_def by (rule limbs_nat_dropWhile)
  have len: "length ws = l" by (simp add: ws_def)
  have dl: "length ws' \<le> l" unfolding ws'_def len [symmetric] by (rule length_dropWhile_le)
  have mpos: "0 < limbs_nat ws'" using lw split xpos by (cases "limbs_nat ws' = 0") simp_all
  then show t: "tab (bf_norm s m e) \<noteq> []"
    by (auto simp add: bf_norm_def Let_def n_def [symmetric] l_def [symmetric]
        x_def [symmetric] ws_def [symmetric] ws'_def [symmetric])
  show "sign (bf_norm s m e) = s" by (simp add: bf_norm_def Let_def)
  show "expn (bf_norm s m e) = e + int (bitlen m)" by (simp add: bf_norm_def Let_def)
  have mant: "bf_mant (bf_norm s m e) = limbs_nat ws'"
    by (simp add: bf_mant_def bf_norm_def Let_def n_def [symmetric] l_def [symmetric]
        x_def [symmetric] ws_def [symmetric] ws'_def [symmetric])
  have ex: "bf_exp2 (bf_norm s m e) = e + int n - 32 * int (length ws')"
    by (simp add: bf_exp2_def bf_norm_def Let_def n_def [symmetric] l_def [symmetric]
        x_def [symmetric] ws_def [symmetric] ws'_def [symmetric])
  have dd: "int (length ws') = int l - int d" using dl len by (simp add: d_def)
  have e1: "e + int n - 32 * int (length ws') = e + (int (32 * d) - int (32 * l - n))"
    using nl dd by simp
  have "limbs_nat ws' * 2 ^ (32 * d) = m * 2 ^ (32 * l - n)"
    using lw split by (simp add: x_def mult.commute)
  then have "(of_nat (limbs_nat ws' * 2 ^ (32 * d)) :: rat) = of_nat (m * 2 ^ (32 * l - n))"
    by (simp only:)
  then have "(of_nat (limbs_nat ws') :: rat) * 2 ^ (32 * d) = of_nat m * 2 ^ (32 * l - n)"
    by simp
  then have q: "(of_nat (limbs_nat ws') :: rat) = of_nat m * 2 ^ (32 * l - n) / 2 ^ (32 * d)"
    by (simp add: field_simps)
  have pw: "(2::rat) powi (e + (A - B)) = 2 powi e * (2 powi A / 2 powi B)" for A B :: int
    by (simp add: power_int_add power_int_diff)
  have "(2::rat) powi (e + (int (32 * d) - int (32 * l - n)))
      = 2 powi e * (2 ^ (32 * d) / 2 ^ (32 * l - n))"
    by (simp only: pw power_int_of_nat)
  then have "(of_nat (limbs_nat ws') :: rat) * 2 powi (e + int n - 32 * int (length ws'))
      = of_nat m * 2 powi e"
    unfolding e1 q by simp
  then show "bf_val (bf_norm s m e) = (if s then - 1 else 1) * of_nat m * 2 powi e"
    by (simp add: bf_val_def mant ex \<open>sign (bf_norm s m e) = s\<close>)
qed


text \<open>The integer that \<open>ceil\<close> computes is the ceiling of the value.\<close>

lemma bf_ceil_int_val: "bf_ceil_int x = \<lceil>bf_val x\<rceil>"
proof -
  define m :: int where "m = (if sign x then - int (bf_mant x) else int (bf_mant x))"
  have v: "bf_val x = of_int m * 2 powi (bf_exp2 x)"
    by (simp add: bf_val_def m_def)
  show ?thesis
  proof (cases "0 \<le> bf_exp2 x")
    case True
    then have "(2::rat) powi (bf_exp2 x) = of_int (2 ^ nat (bf_exp2 x))"
      by (simp add: power_int_def)
    then have "bf_val x = of_int (m * 2 ^ nat (bf_exp2 x))"
      using v by simp
    then have "\<lceil>bf_val x\<rceil> = m * 2 ^ nat (bf_exp2 x)"
      by (simp only: ceiling_of_int)
    with True show ?thesis
      by (simp add: bf_ceil_int_def Let_def m_def)
  next
    case False
    then have "(2::rat) powi (bf_exp2 x) = 1 / of_int (2 ^ nat (- bf_exp2 x))"
      by (simp add: power_int_def field_simps)
    then have "bf_val x = of_int m / of_int (2 ^ nat (- bf_exp2 x))"
      using v by simp
    then have "\<lceil>bf_val x\<rceil> = - (- m div 2 ^ nat (- bf_exp2 x))"
      by (simp only: ceiling_divide_eq_div)
    with False show ?thesis
      by (simp add: bf_ceil_int_def Let_def m_def)
  qed
qed

subsection \<open>The error of rounding to nearest in binary64\<close>

text \<open>
  In the normal range of binary64, rounding \<open>P * 2 ^ e\<close> to nearest gives a Value within
  half a unit in the last place: \<open>2 ^ (e + bitlen P - 54)\<close>.
\<close>

lemma odd_div_half:
  assumes "0 < k"
  shows "odd ((P::nat) div 2 ^ (k - 1)) \<longleftrightarrow> 2 ^ (k - 1) \<le> P mod 2 ^ k"
proof -
  obtain j where k: "k = Suc j" using assms by (cases k) simp_all
  have "P mod (2 ^ j * 2) = 2 ^ j * (P div 2 ^ j mod 2) + P mod 2 ^ j"
    by (rule mod_mult2_eq)
  then have "P mod 2 ^ Suc j = P mod 2 ^ j + 2 ^ j * (P div 2 ^ j mod 2)"
    by (simp add: mult.commute)
  note dec = this
  have lt: "P mod 2 ^ j < 2 ^ j" by simp
  show ?thesis
  proof (cases "odd (P div 2 ^ j)")
    case True
    then have "P div 2 ^ j mod 2 = 1" by (simp add: odd_iff_mod_2_eq_one)
    with dec have "P mod 2 ^ Suc j = P mod 2 ^ j + 2 ^ j" by simp
    with True show ?thesis unfolding k by simp
  next
    case False
    then have "P div 2 ^ j mod 2 = 0" by simp
    with dec have "P mod 2 ^ Suc j = P mod 2 ^ j" by simp
    with False lt show ?thesis unfolding k by (simp add: not_le)
  qed
qed


lemma bf_round_exact_nearest_long:
  assumes P: "0 < P" and long: "53 < bitlen P"
    and lo: "- 1021 \<le> e + int (bitlen P)" and hi: "e + int (bitlen P) < 1024"
  defines "kn \<equiv> bitlen P - 53"
  defines "q \<equiv> P div 2 ^ kn"
  defines "add \<equiv> (odd (P div 2 ^ (kn - 1)) \<and> ((1 < kn \<and> P mod 2 ^ (kn - 1) \<noteq> 0) \<or> odd q))"
  shows "snd (bf_round_exact s P e 53 (binary64 BF_RNDN)) = bf_norm s (q + of_bool add) (e + int kn)"
proof -
  have k: "int (bitlen P) - 53 = int kn" "0 < kn" using long by (simp_all add: kn_def)
  have bp: "bitlen P = 53 + kn" using long by (simp add: kn_def)
  have "P < 2 ^ bitlen P" using bitlen_bounds [OF P] by simp
  also have "2 ^ bitlen P = (2::nat) ^ 53 * 2 ^ kn"
    unfolding bp by (rule power_add)
  finally have "P div 2 ^ kn < 2 ^ 53" by (rule less_mult_imp_div_less)
  then have "q < 2 ^ 53" by (simp only: q_def)
  then have "q < 2 ^ 54" "Suc q < 2 ^ 54" by simp_all
  then have "bitlen q \<le> 54" "bitlen (Suc q) \<le> 54" by (simp_all only: bitlen_le)
  then have ex: "\<not> 1024 < e + int kn + int (bitlen q)"
      "\<not> 1024 < e + int kn + int (bitlen (Suc q))"
    using hi k(1) by linarith+
  show ?thesis
    using P lo k ex
    by (auto simp add: bf_round_exact_def Let_def binary64_def bf_get_exp_bits_def
        BF_FLAG_SUBNORMAL_def rnd_add_one_def q_def [symmetric] add_def)
qed


lemma mod_pow2_decomp:
  assumes "0 < k"
  shows "(P::nat) mod 2 ^ k = P mod 2 ^ (k - 1) + 2 ^ (k - 1) * (P div 2 ^ (k - 1) mod 2)"
proof -
  obtain j where k: "k = Suc j" using assms by (cases k) simp_all
  have "P mod (2 ^ j * 2) = 2 ^ j * (P div 2 ^ j mod 2) + P mod 2 ^ j"
    by (rule mod_mult2_eq)
  then show ?thesis unfolding k by (simp add: mult.commute)
qed

lemma round_nearest_int_error:
  fixes P kn :: nat
  assumes "0 < kn"
  defines "q \<equiv> P div 2 ^ kn"
  defines "add \<equiv> (odd (P div 2 ^ (kn - 1)) \<and> ((1 < kn \<and> P mod 2 ^ (kn - 1) \<noteq> 0) \<or> odd q))"
  shows "\<bar>int (q + of_bool add) * 2 ^ kn - int P\<bar> \<le> 2 ^ (kn - 1)"
proof -
  define r where "r = P mod 2 ^ kn"
  have "P = q * 2 ^ kn + r"
    using div_mult_mod_eq [of P "2 ^ kn"] by (simp only: q_def r_def)
  then have "int P = int (q * 2 ^ kn + r)"
    by (simp only:)
  then have Pqr: "int P = int q * 2 ^ kn + int r"
    by simp
  have two: "(2::int) ^ kn = 2 * 2 ^ (kn - 1)"
    using assms(1) by (cases kn) simp_all
  have rlt: "int r < 2 ^ kn" unfolding r_def by (simp flip: of_nat_power)
  have half: "odd (P div 2 ^ (kn - 1)) \<longleftrightarrow> 2 ^ (kn - 1) \<le> r"
    unfolding r_def using assms(1) by (rule odd_div_half)
  have dec: "r = P mod 2 ^ (kn - 1) + 2 ^ (kn - 1) * (P div 2 ^ (kn - 1) mod 2)"
    unfolding r_def using assms(1) by (rule mod_pow2_decomp)
  show ?thesis
  proof (cases add)
    case True
    then have "2 ^ (kn - 1) \<le> r" using half by (simp add: add_def)
    then have "(2::int) ^ (kn - 1) \<le> int r" by (simp flip: of_nat_power)
    with True Pqr two rlt show ?thesis by (simp add: algebra_simps)
  next
    case False
    have "int r \<le> 2 ^ (kn - 1)"
    proof (cases "odd (P div 2 ^ (kn - 1))")
      case True
      with False have z: "\<not> (1 < kn \<and> P mod 2 ^ (kn - 1) \<noteq> 0)" by (simp add: add_def)
      have "P mod 2 ^ (kn - 1) = 0"
      proof (cases "1 < kn")
        case True
        with z show ?thesis by simp
      next
        case False
        with assms(1) have "kn = 1" by simp
        then show ?thesis by simp
      qed
      moreover from True have "P div 2 ^ (kn - 1) mod 2 = 1" by (simp add: odd_iff_mod_2_eq_one)
      ultimately have "r = 2 ^ (kn - 1)" using dec by simp
      then show ?thesis by (simp flip: of_nat_power)
    next
      case False
      then have "\<not> 2 ^ (kn - 1) \<le> r" using half by simp
      then have "r < 2 ^ (kn - 1)" by simp
      then have "int r < 2 ^ (kn - 1)" by (simp flip: of_nat_power)
      then show ?thesis by simp
    qed
    with False Pqr show ?thesis by (simp add: algebra_simps)
  qed
qed


lemma round_nearest_error:
  assumes P: "0 < P" and lo: "- 1021 \<le> e + int (bitlen P)" and hi: "e + int (bitlen P) < 1024"
  shows "\<exists>m' e'. snd (bf_round_exact s P e 53 (binary64 BF_RNDN)) = bf_norm s m' e' \<and> 0 < m'
           \<and> \<bar>of_nat m' * 2 powi e' - of_nat P * 2 powi e\<bar>
               \<le> (2::rat) powi (e + int (bitlen P) - 54)"
proof (cases "53 < bitlen P")
  case False
  have "bf_round_exact s P e 53 (binary64 BF_RNDN) = (0, bf_norm s P e)"
    using P False lo hi
    by (intro bf_round_exact_fits) (simp_all add: binary64_def bf_get_exp_bits_def)
  moreover have "(0::rat) \<le> 2 powi (e + int (bitlen P) - 54)"
    by (rule zero_le_power_int) simp
  ultimately show ?thesis using P by (intro exI [of _ P] exI [of _ e]) simp
next
  case True
  define kn where "kn = bitlen P - 53"
  define q where "q = P div 2 ^ kn"
  define add where
    "add = (odd (P div 2 ^ (kn - 1)) \<and> ((1 < kn \<and> P mod 2 ^ (kn - 1) \<noteq> 0) \<or> odd q))"
  define m' where "m' = q + of_bool add"
  have kpos: "0 < kn" using True by (simp add: kn_def)
  have bp: "bitlen P = 53 + kn" using True by (simp add: kn_def)
  have res: "snd (bf_round_exact s P e 53 (binary64 BF_RNDN)) = bf_norm s m' (e + int kn)"
    unfolding m'_def add_def q_def kn_def by (rule bf_round_exact_nearest_long [OF P True lo hi])
  have D: "\<bar>int m' * 2 ^ kn - int P\<bar> \<le> 2 ^ (kn - 1)"
    unfolding m'_def add_def q_def by (rule round_nearest_int_error [OF kpos])
  have "2 ^ (bitlen P - 1) \<le> P" using bitlen_bounds [OF P] by simp
  then have "2 ^ 52 * 2 ^ kn \<le> P" unfolding bp by (simp add: power_add)
  then have "2 ^ 52 \<le> q" unfolding q_def using less_eq_div_iff_mult_less_eq [of "2 ^ kn" "2 ^ 52" P]
    by simp
  then have mpos: "0 < m'" by (simp add: m'_def)
  have "(of_nat m' :: rat) * 2 powi (e + int kn) - of_nat P * 2 powi e
      = 2 powi e * of_int (int m' * 2 ^ kn - int P)"
    by (simp add: power_int_add algebra_simps)
  then have "\<bar>(of_nat m' :: rat) * 2 powi (e + int kn) - of_nat P * 2 powi e\<bar>
      = 2 powi e * of_int \<bar>int m' * 2 ^ kn - int P\<bar>"
    by (simp add: abs_mult)
  also have "\<dots> \<le> 2 powi e * of_int (2 ^ (kn - 1))"
    using D by (intro mult_left_mono) (simp_all only: of_int_le_iff zero_le_power_int zero_le_numeral)
  also have "\<dots> = 2 powi (e + int (kn - 1))"
    by (simp add: power_int_add)
  also have "e + int (kn - 1) = e + int (bitlen P) - 54"
    using kpos bp by simp
  finally show ?thesis using res mpos by blast
qed


subsection \<open>Multiples of the decimal constant and the integers\<close>

text \<open>
  \<open>51132157 / 15392313\<close> and \<open>146964308 / 44240665\<close> are neighbouring convergents of the
  continued fraction of 3.32192809488736234786: below the denominator 44240665 no
  multiple of the constant comes closer to an integer than the multiple by 15392313
  does.
\<close>

lemma ceiling_eq_close:
  fixes x y d :: rat
  assumes far: "\<And>j::int. d \<le> \<bar>x - of_int j\<bar>" and near: "\<bar>y - x\<bar> < d"
  shows "\<lceil>y\<rceil> = \<lceil>x\<rceil>"
proof (rule ceiling_unique)
  have up: "x \<le> of_int \<lceil>x\<rceil>" by (rule le_of_int_ceiling)
  have dn: "of_int \<lceil>x\<rceil> - 1 < x" using ceiling_correct [of x] by simp
  from far [of "\<lceil>x\<rceil>"] up have a: "x + d \<le> of_int \<lceil>x\<rceil>" by linarith
  from far [of "\<lceil>x\<rceil> - 1"] dn have b: "of_int \<lceil>x\<rceil> - 1 + d \<le> x" by simp
  from near a show "y \<le> of_int \<lceil>x\<rceil>" by linarith
  from near b show "of_int \<lceil>x\<rceil> - 1 < y" by linarith
qed

lemma digits_far_from_integers:
  fixes n j :: int
  assumes n: "0 < n" "n < 44240665"
  shows "51132157 - 15392313 * BITS_PER_DIGIT_decimal
           \<le> \<bar>of_int n * BITS_PER_DIGIT_decimal - of_int j\<bar>"
proof -
  define u where "u = j * 44240665 - n * 146964308"
  define v where "v = n * 51132157 - j * 15392313"
  define A :: rat where "A = 15392313 * BITS_PER_DIGIT_decimal - 51132157"
  define B :: rat where "B = 44240665 * BITS_PER_DIGIT_decimal - 146964308"
  have A: "A < 0" and B: "0 < B"
    by (simp_all add: A_def B_def BITS_PER_DIGIT_decimal_def)
  have nn: "n = u * 15392313 + v * 44240665"
    by (simp add: u_def v_def)
  have jj: "j = u * 51132157 + v * 146964308"
    by (simp add: u_def v_def)
  have "(of_int n :: rat) = of_int u * 15392313 + of_int v * 44240665"
    by (subst nn) simp
  moreover have "(of_int j :: rat) = of_int u * 51132157 + of_int v * 146964308"
    by (subst jj) simp
  ultimately have x: "of_int n * BITS_PER_DIGIT_decimal - of_int j = of_int u * A + of_int v * B"
    by (simp add: A_def B_def algebra_simps)
  consider "v = 0" | "1 \<le> v" | "v \<le> - 1" by linarith
  then have "- A \<le> \<bar>of_int u * A + of_int v * B\<bar>"
  proof cases
    case 1
    with nn n have "1 \<le> u" by simp
    then have "(1::rat) \<le> of_int u" by simp
    then have "of_int u * A \<le> 1 * A" using A by (intro mult_right_mono_neg) simp_all
    moreover from 1 have "of_int v * B = 0" by simp
    ultimately show ?thesis using A by linarith
  next
    case 2
    with nn n have "u \<le> - 1" by linarith
    then have "(of_int u :: rat) \<le> - 1" by (metis of_int_le_iff of_int_minus of_int_1)
    then have "(- 1) * A \<le> of_int u * A" using A by (intro mult_right_mono_neg) simp_all
    moreover from 2 have "(0::rat) \<le> of_int v" by simp
    then have "0 \<le> of_int v * B" using B by (intro mult_nonneg_nonneg) simp_all
    ultimately show ?thesis by linarith
  next
    case 3
    with nn n have "1 \<le> u" by linarith
    then have "(1::rat) \<le> of_int u" by simp
    then have "of_int u * A \<le> 1 * A" using A by (intro mult_right_mono_neg) simp_all
    moreover from 3 have "(of_int v :: rat) \<le> 0" by simp
    then have "of_int v * B \<le> 0" using B by (intro mult_nonpos_nonneg) simp_all
    ultimately show ?thesis using A by linarith
  qed
  then show ?thesis unfolding x by (simp add: A_def)
qed


subsection \<open>The precision helper below the first exception\<close>

lemma bf_val_unsigned: "\<not> sign a \<Longrightarrow> bf_val a = of_nat (bf_mant a) * 2 powi (bf_exp2 a)"
  by (simp add: bf_val_def)

lemma bitlen_BITS_PER_DIGIT: "bitlen 7480317065143153 = 53"
  by simp

lemma d_of_nat_pos: "0 < n \<Longrightarrow> d_of_nat n = Double (bf_norm False n 0)"
  by (simp add: d_of_nat_def bf_set_ui_def)

lemma bits_api_generic:
  fixes K :: int and d :: rat
  assumes npos: "0 < n"
    and zK: "of_nat n * (7480317065143153 * 2 powi (- 51)) < (2::rat) powi K" and K: "K \<le> 1000"
    and near0: "of_nat n * (BITS_PER_DIGIT_decimal - 7480317065143153 * 2 powi (- 51))
                  + 2 powi (K - 54) < d"
    and far: "\<And>j::int. d \<le> \<bar>of_nat n * BITS_PER_DIGIT_decimal - of_int j\<bar>"
  shows "bits_api (d_of_nat n) = d_of_nat (nat (digits_to_bits_spec n))
       \<and> 0 < digits_to_bits_spec n"
proof -
  define c where "c = BITS_PER_DIGIT_decimal"
  define cd :: rat where "cd = 7480317065143153 * 2 powi (- 51)"
  define x where "x = bf_norm False n 0"
  define y where "y = bf_norm False 7480317065143153 (- 51)"
  define P where "P = bf_mant x * bf_mant y"
  define e where "e = bf_exp2 x + bf_exp2 y"
  define z :: rat where "z = of_nat n * cd"
  define E where "E = e + int (bitlen P)"
  have n1: "(1::rat) \<le> of_nat n" using npos by simp
  have cd2: "2 \<le> cd" by (simp add: cd_def)
  have gap: "0 \<le> c - cd"
    by (simp add: c_def cd_def BITS_PER_DIGIT_decimal_def)
  have X: "bf_val x = of_nat n" "tab x \<noteq> []" "\<not> sign x" "expn x = int (bitlen n)"
    using bf_norm_val [OF npos, of False 0] by (simp_all add: x_def)
  have Y: "bf_val y = cd" "tab y \<noteq> []" "\<not> sign y" "expn y = 2"
    using bf_norm_val [of 7480317065143153 False "- 51"] by (simp_all add: y_def cd_def)
  have vx: "of_nat (bf_mant x) * 2 powi bf_exp2 x = (of_nat n :: rat)"
    using X(1) bf_val_unsigned [OF X(3)] by simp
  have vy: "of_nat (bf_mant y) * 2 powi bf_exp2 y = cd"
    using Y(1) bf_val_unsigned [OF Y(3)] by simp
  have "(of_nat P :: rat) * 2 powi e
      = (of_nat (bf_mant x) * 2 powi bf_exp2 x) * (of_nat (bf_mant y) * 2 powi bf_exp2 y)"
    by (simp add: P_def e_def power_int_add)
  also have "\<dots> = z" by (simp only: vx vy z_def)
  finally have zP: "of_nat P * 2 powi e = z" .
  have z2: "2 \<le> z"
  proof -
    have "1 * 2 \<le> of_nat n * cd" using n1 cd2(1) by (intro mult_mono) simp_all
    then show ?thesis by (simp add: z_def)
  qed
  have zK': "z < 2 powi K" using zK by (simp add: z_def cd_def)
  have Ppos: "0 < P"
  proof (rule ccontr)
    assume "\<not> 0 < P"
    then have "P = 0" by simp
    with zP z2 show False by simp
  qed
  have bb: "2 ^ (bitlen P - 1) \<le> P" "P < 2 ^ bitlen P"
    using bitlen_bounds [OF Ppos] by simp_all
  have blpos: "0 < bitlen P" using Ppos by (rule bitlen_gt0)
  have "(of_nat (2 ^ (bitlen P - 1)) :: rat) \<le> of_nat P" using bb(1) by (simp only: of_nat_le_iff)
  then have "(2::rat) ^ (bitlen P - 1) * 2 powi e \<le> of_nat P * 2 powi e"
    by (intro mult_right_mono) simp_all
  moreover have "(2::rat) ^ (bitlen P - 1) * 2 powi e = 2 powi (E - 1)"
  proof -
    have "E - 1 = int (bitlen P - 1) + e" using blpos by (simp add: E_def)
    then show ?thesis by (simp add: power_int_add)
  qed
  ultimately have zlo: "2 powi (E - 1) \<le> z" using zP by simp
  have "(of_nat P :: rat) < of_nat (2 ^ bitlen P)" using bb(2) by (simp only: of_nat_less_iff)
  then have "of_nat P * 2 powi e < (2::rat) ^ bitlen P * 2 powi e"
    by (intro mult_strict_right_mono) simp_all
  moreover have "(2::rat) ^ bitlen P * 2 powi e = 2 powi E"
    by (simp add: E_def power_int_add)
  ultimately have zhi: "z < 2 powi E" using zP by simp
  have EK: "E \<le> K"
  proof (rule ccontr)
    assume "\<not> E \<le> K"
    then have "K \<le> E - 1" by simp
    then have "(2::rat) powi K \<le> 2 powi (E - 1)" by (rule power_int_increasing) simp
    with zlo zK' show False by simp
  qed
  have E2: "2 \<le> E"
  proof (rule ccontr)
    assume "\<not> 2 \<le> E"
    then have "E \<le> 1" by simp
    then have "(2::rat) powi E \<le> 2 powi 1" by (rule power_int_increasing) simp
    with zhi z2 show False by simp
  qed
  have lo: "- 1021 \<le> e + int (bitlen P)" and hi: "e + int (bitlen P) < 1024"
    using E2 EK K by (simp_all add: E_def)
  from round_nearest_error [OF Ppos lo hi, of False]
  obtain m' e' where res: "snd (bf_round_exact False P e 53 (binary64 BF_RNDN)) = bf_norm False m' e'"
    and mpos: "0 < m'"
    and err: "\<bar>of_nat m' * 2 powi e' - of_nat P * 2 powi e\<bar> \<le> (2::rat) powi (e + int (bitlen P) - 54)"
    by blast
  define w where "w = bf_norm False m' e'"
  define yv :: rat where "yv = of_nat m' * 2 powi e'"
  have W: "bf_val w = yv" "tab w \<noteq> []"
    using bf_norm_val [OF mpos, of False e'] by (simp_all add: w_def yv_def)
  have "(2::rat) powi (E - 54) \<le> 2 powi (K - 54)"
    using EK by (intro power_int_increasing) simp_all
  with err have err2: "\<bar>yv - z\<bar> \<le> 2 powi (K - 54)"
    by (simp add: yv_def zP E_def)
  have "0 \<le> of_nat n * (c - cd)"
    using gap by (intro mult_nonneg_nonneg) simp_all
  then have "\<bar>z - of_nat n * c\<bar> = of_nat n * (c - cd)"
    by (simp add: z_def algebra_simps)
  with err2 near0 have near: "\<bar>yv - of_nat n * c\<bar> < d"
    unfolding c_def [symmetric] cd_def [symmetric] by linarith
  have ceil: "\<lceil>yv\<rceil> = digits_to_bits_spec n"
    unfolding digits_to_bits_spec_def c_def [symmetric]
    using far [unfolded c_def [symmetric]] near by (rule ceiling_eq_close)
  have "0 < of_nat n * c" using npos by (simp add: c_def BITS_PER_DIGIT_decimal_def)
  then have Cpos: "0 < digits_to_bits_spec n"
    by (simp add: digits_to_bits_spec_def c_def)
  have "(2::rat) powi (int (bitlen n) - 1) \<le> of_nat n"
  proof -
    have "2 ^ (bitlen n - 1) \<le> n" using bitlen_bounds [OF npos] by simp
    then have "(of_nat (2 ^ (bitlen n - 1)) :: rat) \<le> of_nat n" by (simp only: of_nat_le_iff)
    then have "(2::rat) powi (int (bitlen n - 1)) \<le> of_nat n" by (simp add: power_int_of_nat)
    moreover have "int (bitlen n) - 1 = int (bitlen n - 1)" using bitlen_gt0 [OF npos] by simp
    ultimately show ?thesis by (simp only:)
  qed
  moreover have "of_nat n * 1 \<le> of_nat n * cd" using cd2 by (intro mult_left_mono) simp_all
  ultimately have "(2::rat) powi (int (bitlen n) - 1) < 2 powi K"
    using zK' by (simp add: z_def)
  then have bn: "int (bitlen n) \<le> 1000"
  proof -
    have "\<not> K \<le> int (bitlen n) - 1"
    proof
      assume "K \<le> int (bitlen n) - 1"
      then have "(2::rat) powi K \<le> 2 powi (int (bitlen n) - 1)"
        by (rule power_int_increasing) simp
      with \<open>(2::rat) powi (int (bitlen n) - 1) < 2 powi K\<close> show False by simp
    qed
    with K show ?thesis by simp
  qed
  have mul: "d_mul (d_of_nat n) BITS_PER_DIGIT = Double w"
    using X Y bn res
    by (simp add: d_mul_def d_of_nat_pos [OF npos] BITS_PER_DIGIT_def x_def [symmetric]
        y_def [symmetric] P_def [symmetric] e_def [symmetric] w_def
        bf_is_nan_def bf_is_zero_def BF_EXP_NAN_def BF_EXP_INF_def BF_EXP_ZERO_def)
  have ci: "bf_ceil_int w = digits_to_bits_spec n"
    using ceil W(1) by (simp add: bf_ceil_int_val)
  have "d_ceil (Double w) = d_of_nat (nat (digits_to_bits_spec n))"
    using W(2) Cpos ci by (simp add: d_ceil_def bf_set_si_def d_of_nat_def)
  with mul Cpos show ?thesis by (simp add: bits_api_def)
qed


lemma digits_far_from_integers_upper:
  fixes n j :: int
  assumes n: "2 * 15392313 < n" "n < 44240665"
  shows "(44240665 * BITS_PER_DIGIT_decimal - 146964308)
           + (51132157 - 15392313 * BITS_PER_DIGIT_decimal)
           \<le> \<bar>of_int n * BITS_PER_DIGIT_decimal - of_int j\<bar>"
proof -
  define u where "u = j * 44240665 - n * 146964308"
  define v where "v = n * 51132157 - j * 15392313"
  define A :: rat where "A = 15392313 * BITS_PER_DIGIT_decimal - 51132157"
  define B :: rat where "B = 44240665 * BITS_PER_DIGIT_decimal - 146964308"
  have A: "A < 0" and B: "0 < B" and AB: "B \<le> - A"
    by (simp_all add: A_def B_def BITS_PER_DIGIT_decimal_def)
  have nn: "n = u * 15392313 + v * 44240665"
    by (simp add: u_def v_def)
  have jj: "j = u * 51132157 + v * 146964308"
    by (simp add: u_def v_def)
  have "(of_int n :: rat) = of_int u * 15392313 + of_int v * 44240665"
    by (subst nn) simp
  moreover have "(of_int j :: rat) = of_int u * 51132157 + of_int v * 146964308"
    by (subst jj) simp
  ultimately have x: "of_int n * BITS_PER_DIGIT_decimal - of_int j = of_int u * A + of_int v * B"
    by (simp add: A_def B_def algebra_simps)
  consider "v = 0" | "1 \<le> v" | "v \<le> - 1" by linarith
  then have "B - A \<le> \<bar>of_int u * A + of_int v * B\<bar>"
  proof cases
    case 1
    with nn n have "3 \<le> u" by simp
    then have "(3::rat) \<le> of_int u" by (metis of_int_le_iff of_int_numeral)
    then have "of_int u * A \<le> 3 * A" using A by (intro mult_right_mono_neg) simp_all
    moreover from 1 have "of_int v * B = 0" by simp
    ultimately show ?thesis using A AB by linarith
  next
    case 2
    with nn n have "u \<le> - 1" by linarith
    then have "(of_int u :: rat) \<le> - 1" by (metis of_int_le_iff of_int_minus of_int_1)
    then have "(- 1) * A \<le> of_int u * A" using A by (intro mult_right_mono_neg) simp_all
    moreover from 2 have "(1::rat) \<le> of_int v" by simp
    then have "1 * B \<le> of_int v * B" using B by (intro mult_right_mono) simp_all
    ultimately show ?thesis by linarith
  next
    case 3
    with nn n have "1 \<le> u" by linarith
    then have "(1::rat) \<le> of_int u" by simp
    then have "of_int u * A \<le> 1 * A" using A by (intro mult_right_mono_neg) simp_all
    moreover from 3 have "(of_int v :: rat) \<le> - 1" by (metis of_int_le_iff of_int_minus of_int_1)
    then have "of_int v * B \<le> (- 1) * B" using B by (intro mult_right_mono) simp_all
    ultimately show ?thesis using A B by linarith
  qed
  then show ?thesis unfolding x by (simp add: A_def B_def)
qed

lemma bits_api_small:
  assumes npos: "0 < n" and nlt: "n < 2 ^ 25"
  shows "bits_api (d_of_nat n) = d_of_nat (nat (digits_to_bits_spec n))
       \<and> 0 < digits_to_bits_spec n"
proof (rule bits_api_generic [OF npos, where K = 27
      and d = "51132157 - 15392313 * BITS_PER_DIGIT_decimal"])
  have n2: "(of_nat n :: rat) < 2 ^ 25"
    using nlt by (metis of_nat_less_iff of_nat_numeral of_nat_power)
  have "of_nat n * (7480317065143153 * 2 powi (- 51)) < (2::rat) ^ 25 * 4"
    using n2 by (intro mult_strict_mono) simp_all
  then show "of_nat n * (7480317065143153 * 2 powi (- 51)) < (2::rat) powi 27" by simp
  show "(27::int) \<le> 1000" by simp
  have "of_nat n * (BITS_PER_DIGIT_decimal - 7480317065143153 * 2 powi (- 51))
      \<le> 2 ^ 25 * (BITS_PER_DIGIT_decimal - 7480317065143153 * 2 powi (- 51))"
    using n2 by (intro mult_right_mono) (simp_all add: BITS_PER_DIGIT_decimal_def)
  moreover have "2 ^ 25 * (BITS_PER_DIGIT_decimal - 7480317065143153 * 2 powi (- 51))
      + 2 powi (27 - 54) < 51132157 - 15392313 * BITS_PER_DIGIT_decimal"
    by (simp add: BITS_PER_DIGIT_decimal_def)
  ultimately show "of_nat n * (BITS_PER_DIGIT_decimal - 7480317065143153 * 2 powi (- 51))
      + 2 powi (27 - 54) < 51132157 - 15392313 * BITS_PER_DIGIT_decimal" by linarith
  show "51132157 - 15392313 * BITS_PER_DIGIT_decimal
      \<le> \<bar>of_nat n * BITS_PER_DIGIT_decimal - of_int j\<bar>" for j
    using digits_far_from_integers [of "int n" j] npos nlt by simp
qed

lemma bits_api_large:
  assumes nge: "2 ^ 25 \<le> n" and nlt: "n < 44240665"
  shows "bits_api (d_of_nat n) = d_of_nat (nat (digits_to_bits_spec n))
       \<and> 0 < digits_to_bits_spec n"
proof (rule bits_api_generic [where K = 28
      and d = "(44240665 * BITS_PER_DIGIT_decimal - 146964308)
                 + (51132157 - 15392313 * BITS_PER_DIGIT_decimal)"])
  show "0 < n" using nge by simp
  have n2: "(of_nat n :: rat) < 44240665"
    using nlt by (metis of_nat_less_iff of_nat_numeral)
  have "of_nat n * (7480317065143153 * 2 powi (- 51)) < (44240665::rat) * 4"
    using n2 by (intro mult_strict_mono) simp_all
  then show "of_nat n * (7480317065143153 * 2 powi (- 51)) < (2::rat) powi 28" by simp
  show "(28::int) \<le> 1000" by simp
  have "of_nat n * (BITS_PER_DIGIT_decimal - 7480317065143153 * 2 powi (- 51))
      \<le> 44240665 * (BITS_PER_DIGIT_decimal - 7480317065143153 * 2 powi (- 51))"
    using n2 by (intro mult_right_mono) (simp_all add: BITS_PER_DIGIT_decimal_def)
  moreover have "44240665 * (BITS_PER_DIGIT_decimal - 7480317065143153 * 2 powi (- 51))
      + 2 powi (28 - 54) < (44240665 * BITS_PER_DIGIT_decimal - 146964308)
                 + (51132157 - 15392313 * BITS_PER_DIGIT_decimal)"
    by (simp add: BITS_PER_DIGIT_decimal_def)
  ultimately show "of_nat n * (BITS_PER_DIGIT_decimal - 7480317065143153 * 2 powi (- 51))
      + 2 powi (28 - 54) < (44240665 * BITS_PER_DIGIT_decimal - 146964308)
                 + (51132157 - 15392313 * BITS_PER_DIGIT_decimal)" by linarith
  show "(44240665 * BITS_PER_DIGIT_decimal - 146964308)
                 + (51132157 - 15392313 * BITS_PER_DIGIT_decimal)
      \<le> \<bar>of_nat n * BITS_PER_DIGIT_decimal - of_int j\<bar>" for j
    using digits_far_from_integers_upper [of "int n" j] nge nlt by simp
qed


lemma bf_ceil_int_zero: "bf_mant x = 0 \<Longrightarrow> bf_ceil_int x = 0"
  by (simp add: bf_ceil_int_def Let_def)

lemma d_int_d_of_nat: "d_int (d_of_nat m) = int m"
proof (cases "m = 0")
  case True
  have "bf_mant (bf_zero False) = 0" by (simp add: bf_mant_def bf_zero_def)
  then have "bf_ceil_int (bf_zero False) = 0" by (rule bf_ceil_int_zero)
  with True show ?thesis
    by (simp add: d_int_def d_of_nat_def bf_set_ui_def)
next
  case False
  then have m: "0 < m" by simp
  have "bf_val (bf_norm False m 0) = of_nat m"
    using bf_norm_val(1) [OF m, of False 0] by simp
  then show ?thesis
    using m by (simp add: d_int_def d_of_nat_pos bf_ceil_int_val)
qed

lemma bits_api_zero: "bits_api (d_of_nat 0) = d_of_nat 0"
proof -
  have "expn (bf_norm False 7480317065143153 (- 51)) = 2"
    using bf_norm_val(4) [of 7480317065143153 False "- 51"] by simp
  moreover have "\<not> sign (bf_norm False 7480317065143153 (- 51))"
    using bf_norm_val(3) [of 7480317065143153 False "- 51"] by simp
  ultimately show ?thesis
    by (simp add: bits_api_def d_mul_def d_ceil_def d_of_nat_def bf_set_ui_def BITS_PER_DIGIT_def
        bf_zero_def bf_is_nan_def bf_is_zero_def BF_EXP_ZERO_def BF_EXP_NAN_def BF_EXP_INF_def)
qed


subsection \<open>The precision helper at 44240665 digits\<close>

lemma digits_to_bits_spec_div:
  "digits_to_bits_spec n = - (- (int n * 332192809488736234786) div 10 ^ 20)"
proof -
  have "of_nat n * BITS_PER_DIGIT_decimal
      = of_int (int n * 332192809488736234786) / (of_int (10 ^ 20) :: rat)"
    by (simp add: BITS_PER_DIGIT_decimal_def)
  then show ?thesis
    unfolding digits_to_bits_spec_def by (simp only: ceiling_divide_eq_div)
qed

lemma BITS_PER_DIGIT_limbs:
  "bf_norm False 7480317065143153 (- 51) = \<lparr>sign = False, expn = 2, tab = [0xCD1B8800, 0xD49A784B]\<rparr>"
  by (simp add: bf_norm_def Let_def)

lemma d_of_nat_44240665:
  "d_of_nat 44240665 = Double \<lparr>sign = False, expn = 26, tab = [0xA8C3C640]\<rparr>"
  by (simp add: d_of_nat_def bf_set_ui_def bf_norm_def Let_def)

lemma d_of_nat_146964308:
  "d_of_nat 146964308 = Double \<lparr>sign = False, expn = 28, tab = [0x8C27F540]\<rparr>"
  by (simp add: d_of_nat_def bf_set_ui_def bf_norm_def Let_def)

lemma d_mul_44240665:
  "d_mul (d_of_nat 44240665) BITS_PER_DIGIT = Double \<lparr>sign = False, expn = 28, tab = [0x8C27F540]\<rparr>"
  by (simp add: d_of_nat_44240665 BITS_PER_DIGIT_def BITS_PER_DIGIT_limbs d_mul_def
      bf_is_nan_def bf_is_zero_def BF_EXP_ZERO_def BF_EXP_NAN_def BF_EXP_INF_def
      bf_round_exact_def bf_mant_def bf_exp2_def Let_def binary64_def bf_get_exp_bits_def
      BF_FLAG_SUBNORMAL_def rnd_add_one_def bf_norm_def)


section \<open>Properties of the dispatch\<close>

text \<open>
  C1. For every selector that has no case in \<open>calc\<close>, \<open>calc\<close> returns the
  invalid-operation status \<open>BF_ST_INVALID_OP\<close> and the store is as it was: no Value,
  the result \<open>r\<close> included, is changed in sign, exponent or mantissa. The same holds
  for \<open>calc2\<close>, its results \<open>r\<close> and \<open>q\<close>, and every selector with no case in \<open>calc2\<close>.
  No handle is followed, so the handles may even be null.
\<close>

theorem calc_unknown_selector:
  "(method \<notin> calc_selectors \<longrightarrow>
      calc E s method r a b prec flags = Inr (BF_ST_INVALID_OP, s))
   \<and> (method \<notin> calc2_selectors \<longrightarrow>
      calc2 E s method r a b prec flags rnd q = Inr (BF_ST_INVALID_OP, s))"
  by (simp add: calc_def calc2_def calc_selectors_def calc2_selectors_def)

theorem calc_unknown_selector_witness:
  "CHR ''?'' \<notin> calc_selectors \<and> CHR ''?'' \<notin> calc2_selectors
   \<and> calc nan_engine [1 \<mapsto> bf_zero False] (CHR ''?'') 1 1 1 53 (binary64 BF_RNDN)
       = Inr (BF_ST_INVALID_OP, [1 \<mapsto> bf_zero False])
   \<and> calc2 nan_engine [1 \<mapsto> bf_zero False] (CHR ''?'') 1 1 1 53 (binary64 BF_RNDN) 0 1
       = Inr (BF_ST_INVALID_OP, [1 \<mapsto> bf_zero False])"
  using calc_unknown_selector [of "CHR ''?''" nan_engine "[1 \<mapsto> bf_zero False]" 1 1 1 53
      "binary64 BF_RNDN" 0 1]
  by (simp add: calc_selectors_def calc2_selectors_def)

text \<open>
  C2. For a flag bundle with 8 exponent bits and the precision 24, whatever its
  rounding mode and subnormal modifier, the maximum-finite selector \<open>Z\<close> stores the
  Value of \<open>(2 ^ 24 - 1) * 2 ^ 104\<close>, the largest finite single-precision number, and
  the machine-epsilon selector \<open>y\<close> stores the Value of \<open>2 ^ (1 - 24) = 2 ^ -23\<close>; both
  return 0 and read neither \<open>a\<close> nor \<open>b\<close> nor the old Value of \<open>r\<close>.
\<close>

theorem type_limits_single:
  assumes "bf_get_exp_bits flags = 8" and "load s r = Inr v"
  shows "calc E s (CHR ''Z'') r a b 24 flags
           = Inr (0, s(r \<mapsto> \<lparr>sign = False, expn = 128, tab = [0xFFFFFF00]\<rparr>))
       \<and> bf_val \<lparr>sign = False, expn = 128, tab = [0xFFFFFF00]\<rparr> = (2 ^ 24 - 1) * 2 ^ 104
       \<and> calc E s (CHR ''y'') r a b 24 flags
           = Inr (0, s(r \<mapsto> \<lparr>sign = False, expn = - 22, tab = [0x80000000]\<rparr>))
       \<and> bf_val \<lparr>sign = False, expn = - 22, tab = [0x80000000]\<rparr> = 1 / 2 ^ 23"
proof -
  note steps = Z_step1 [OF assms(1)] Z_step2 [OF assms(1)] Z_step3 [OF assms(1)]
    y_step [OF assms(1)]
  have Z: "calc E s (CHR ''Z'') r a b 24 flags
           = Inr (0, s(r \<mapsto> \<lparr>sign = False, expn = 128, tab = [0xFFFFFF00]\<rparr>))"
    using assms by (simp add: calc_def call_c_def call_r_def Let_def bf_set_ui_1 steps)
  have y: "calc E s (CHR ''y'') r a b 24 flags
           = Inr (0, s(r \<mapsto> \<lparr>sign = False, expn = - 22, tab = [0x80000000]\<rparr>))"
    using assms by (simp add: calc_def call_c_def call_r_def Let_def bf_set_ui_1 steps)
  have vZ: "bf_val \<lparr>sign = False, expn = 128, tab = [0xFFFFFF00]\<rparr> = (2 ^ 24 - 1) * 2 ^ 104"
    by (simp add: bf_val_def bf_mant_def bf_exp2_def)
  have vy: "bf_val \<lparr>sign = False, expn = - 22, tab = [0x80000000]\<rparr> = 1 / 2 ^ 23"
    by (simp add: bf_val_def bf_mant_def bf_exp2_def)
  from Z y vZ vy show ?thesis by simp
qed

theorem type_limits_single_witness:
  "bf_get_exp_bits \<lparr>rnd_mode = BF_RNDZ, exp_bits = 8, subnormal = True\<rparr> = 8
   \<and> load [1 \<mapsto> bf_nan] 1 = Inr bf_nan
   \<and> calc nan_engine [1 \<mapsto> bf_nan] (CHR ''Z'') 1 0 0 24
         \<lparr>rnd_mode = BF_RNDZ, exp_bits = 8, subnormal = True\<rparr>
       = Inr (0, [1 \<mapsto> \<lparr>sign = False, expn = 128, tab = [0xFFFFFF00]\<rparr>])
   \<and> calc nan_engine [1 \<mapsto> bf_nan] (CHR ''y'') 1 0 0 24
         \<lparr>rnd_mode = BF_RNDZ, exp_bits = 8, subnormal = True\<rparr>
       = Inr (0, [1 \<mapsto> \<lparr>sign = False, expn = - 22, tab = [0x80000000]\<rparr>])"
proof -
  have e: "bf_get_exp_bits \<lparr>rnd_mode = BF_RNDZ, exp_bits = 8, subnormal = True\<rparr> = 8"
    by (simp add: bf_get_exp_bits_def)
  have l: "load [1 \<mapsto> bf_nan] 1 = Inr bf_nan"
    by (simp add: load_single)
  from type_limits_single [OF e l, of nan_engine 0 0] e l show ?thesis by simp
qed

text \<open>
  C3. For every operand \<open>a\<close>, the sign-extract selector \<open>g\<close> stores into \<open>r\<close> a copy of
  \<open>a\<close> when \<open>a\<close> is NaN or zero, and otherwise the Value of \<open>+1\<close> when the sign of \<open>a\<close>
  is clear and the Value of \<open>-1\<close> when it is set (infinities included); it returns 0.
  The handles \<open>r\<close> and \<open>a\<close> may be the same.
\<close>

theorem sign_extract:
  assumes "load s a = Inr x" and "load s r = Inr v"
  shows "calc E s (CHR ''g'') r a b prec flags =
           Inr (0, s(r \<mapsto>
             (if bf_is_nan x \<or> bf_is_zero x then x
              else if sign x then \<lparr>sign = True, expn = 1, tab = [0x80000000]\<rparr>
              else \<lparr>sign = False, expn = 1, tab = [0x80000000]\<rparr>)))
         \<and> bf_val \<lparr>sign = False, expn = 1, tab = [0x80000000]\<rparr> = 1
         \<and> bf_val \<lparr>sign = True, expn = 1, tab = [0x80000000]\<rparr> = - 1"
  using assms
  by (simp add: calc_def call_ra_def call_c_def call_r_def bf_set_def bf_set_si_1 bf_set_si_m1
      bf_val_def bf_mant_def bf_exp2_def)

theorem sign_extract_witness:
  "load [1 \<mapsto> bf_inf True] 1 = Inr (bf_inf True)
   \<and> calc nan_engine [1 \<mapsto> bf_inf True] (CHR ''g'') 1 1 0 53 (binary64 BF_RNDN)
       = Inr (0, [1 \<mapsto> \<lparr>sign = True, expn = 1, tab = [0x80000000]\<rparr>])"
proof -
  have l: "load [1 \<mapsto> bf_inf True] 1 = Inr (bf_inf True)"
    by (simp add: load_single)
  from sign_extract [OF l l, of nan_engine 0 53 "binary64 BF_RNDN"] l show ?thesis
    by (simp add: bf_inf_def bf_is_nan_def bf_is_zero_def BF_EXP_INF_def BF_EXP_NAN_def
        BF_EXP_ZERO_def)
qed

text \<open>
  C4. For every finite non-zero \<open>a\<close> and zero \<open>b\<close>, the divide selector stores in \<open>r\<close>
  the infinity whose sign is the exclusive or of the operand signs and returns the
  division-by-zero bit; when \<open>a\<close> and \<open>b\<close> are both zero it stores NaN and returns the
  invalid-operation bit. The two bits are different bits of the status.
\<close>

theorem divide_by_zero:
  assumes "load s a = Inr x" and "load s b = Inr y" and "load s r = Inr v"
  shows "(bf_is_finite x \<and> \<not> bf_is_zero x \<and> bf_is_zero y \<longrightarrow>
            calc E s (CHR ''/'') r a b prec flags
              = Inr (BF_ST_DIVIDE_ZERO, s(r \<mapsto> bf_inf (sign x \<noteq> sign y))))
       \<and> (bf_is_zero x \<and> bf_is_zero y \<longrightarrow>
            calc E s (CHR ''/'') r a b prec flags = Inr (BF_ST_INVALID_OP, s(r \<mapsto> bf_nan)))
       \<and> BF_ST_DIVIDE_ZERO AND BF_ST_DIVIDE_ZERO \<noteq> 0
       \<and> BF_ST_INVALID_OP AND BF_ST_INVALID_OP \<noteq> 0
       \<and> BF_ST_DIVIDE_ZERO AND BF_ST_INVALID_OP = 0
       \<and> bf_is_nan bf_nan
       \<and> expn (bf_inf (sign x \<noteq> sign y)) = BF_EXP_INF
       \<and> sign (bf_inf (sign x \<noteq> sign y)) = (sign x \<noteq> sign y)"
  using assms
  by (simp add: calc_def call_rab_def call_ra_def call_c_def call_r_def bf_div_def
      bf_is_finite_def bf_is_zero_def bf_is_nan_def bf_nan_def bf_inf_def
      BF_EXP_INF_def BF_EXP_ZERO_def BF_EXP_NAN_def BF_ST_DIVIDE_ZERO_def BF_ST_INVALID_OP_def)

theorem divide_by_zero_witness:
  "load [1 \<mapsto> \<lparr>sign = True, expn = 1, tab = [0x80000000]\<rparr>, 2 \<mapsto> bf_zero False] 1
     = Inr \<lparr>sign = True, expn = 1, tab = [0x80000000]\<rparr>
   \<and> load [1 \<mapsto> \<lparr>sign = True, expn = 1, tab = [0x80000000]\<rparr>, 2 \<mapsto> bf_zero False] 2
     = Inr (bf_zero False)
   \<and> calc nan_engine [1 \<mapsto> \<lparr>sign = True, expn = 1, tab = [0x80000000]\<rparr>, 2 \<mapsto> bf_zero False]
        (CHR ''/'') 1 1 2 53 (binary64 BF_RNDN)
       = Inr (BF_ST_DIVIDE_ZERO, [1 \<mapsto> bf_inf True, 2 \<mapsto> bf_zero False])
   \<and> calc nan_engine [1 \<mapsto> \<lparr>sign = True, expn = 1, tab = [0x80000000]\<rparr>, 2 \<mapsto> bf_zero False]
        (CHR ''/'') 1 2 2 53 (binary64 BF_RNDN)
       = Inr (BF_ST_INVALID_OP, [1 \<mapsto> bf_nan, 2 \<mapsto> bf_zero False])"
proof -
  let ?s = "[1 \<mapsto> \<lparr>sign = True, expn = 1, tab = [0x80000000]\<rparr>, 2 \<mapsto> bf_zero False] :: store"
  have l1: "load ?s 1 = Inr \<lparr>sign = True, expn = 1, tab = [0x80000000]\<rparr>"
    by (simp add: load_def NULL_def)
  have l2: "load ?s 2 = Inr (bf_zero False)"
    by (simp add: load_def NULL_def)
  have m: "?s(1 \<mapsto> w) = [1 \<mapsto> w, 2 \<mapsto> bf_zero False]" for w
    by (rule ext) simp
  from divide_by_zero [OF l1 l2 l1, of nan_engine 53 "binary64 BF_RNDN"]
    divide_by_zero [OF l2 l2 l1, of nan_engine 53 "binary64 BF_RNDN"] l1 l2 m
  show ?thesis
    by (simp add: bf_is_finite_def bf_is_zero_def bf_zero_def BF_EXP_INF_def BF_EXP_ZERO_def)
qed

text \<open>
  C5. For every Value \<open>x\<close>, signed zeros, infinities and NaN included, the negate
  selector \<open>n\<close> applied twice to \<open>r\<close> gives back \<open>x\<close>, and the store is then as it was
  at the start; every application returns 0, flips the sign and leaves the exponent
  and the mantissa as they are.
\<close>

theorem negate_twice:
  assumes "load s r = Inr x"
  shows "calc E s (CHR ''n'') r a b prec flags = Inr (0, s(r \<mapsto> bf_neg x))
       \<and> calc E (s(r \<mapsto> bf_neg x)) (CHR ''n'') r a b prec flags = Inr (0, s(r \<mapsto> x))
       \<and> s(r \<mapsto> x) = s
       \<and> sign (bf_neg x) = (\<not> sign x) \<and> expn (bf_neg x) = expn x \<and> tab (bf_neg x) = tab x"
  using assms
  by (auto simp add: calc_def call_r_def bf_neg_def load_def split: if_splits option.splits)

theorem negate_twice_witness:
  "load [1 \<mapsto> bf_zero False] 1 = Inr (bf_zero False)
   \<and> calc nan_engine [1 \<mapsto> bf_zero False] (CHR ''n'') 1 0 0 53 (binary64 BF_RNDN)
       = Inr (0, [1 \<mapsto> bf_zero True])
   \<and> calc nan_engine [1 \<mapsto> bf_zero True] (CHR ''n'') 1 0 0 53 (binary64 BF_RNDN)
       = Inr (0, [1 \<mapsto> bf_zero False])"
proof -
  have l: "load [1 \<mapsto> bf_zero False] 1 = Inr (bf_zero False)"
    by (simp add: load_single)
  from negate_twice [OF l, of nan_engine 0 0 53 "binary64 BF_RNDN"] l show ?thesis
    by (simp add: bf_neg_def bf_zero_def)
qed

text \<open>
  C10. For the selectors \<open>r\<close> (round to precision), \<open>i\<close> (round to integer), \<open>n\<close> (negate)
  and \<open>b\<close> (absolute value) the outcome of \<open>calc\<close> does not depend on the handles \<open>a\<close>
  and \<open>b\<close>, which may be null: only \<open>r\<close> is read, and the only Value of the store that
  changes is the one of \<open>r\<close>. Negate and absolute value return 0 for every Value, and
  absolute value clears the sign and leaves the exponent and the mantissa as they are.
\<close>

theorem calc_in_place:
  "(\<forall>m \<in> set ''rinb''. calc E s m r a b prec flags = calc E s m r NULL NULL prec flags)
   \<and> (load s r = Inr v \<longrightarrow>
        calc E s (CHR ''r'') r a b prec flags
          = Inr (fst (bf_round v prec flags), s(r \<mapsto> snd (bf_round v prec flags)))
      \<and> calc E s (CHR ''i'') r a b prec flags
          = Inr (fst (bf_rint E v flags), s(r \<mapsto> snd (bf_rint E v flags)))
      \<and> calc E s (CHR ''n'') r a b prec flags = Inr (0, s(r \<mapsto> v\<lparr>sign := \<not> sign v\<rparr>))
      \<and> calc E s (CHR ''b'') r a b prec flags = Inr (0, s(r \<mapsto> v\<lparr>sign := False\<rparr>))
      \<and> expn (v\<lparr>sign := False\<rparr>) = expn v \<and> tab (v\<lparr>sign := False\<rparr>) = tab v)"
  by (simp add: calc_def call_r_def bf_neg_def split: prod.splits)

theorem calc_in_place_witness:
  "load [1 \<mapsto> \<lparr>sign = True, expn = 1, tab = [0x80000000]\<rparr>] 1
     = Inr \<lparr>sign = True, expn = 1, tab = [0x80000000]\<rparr>
   \<and> calc nan_engine [1 \<mapsto> \<lparr>sign = True, expn = 1, tab = [0x80000000]\<rparr>] (CHR ''b'') 1 NULL NULL
        53 (binary64 BF_RNDN)
       = Inr (0, [1 \<mapsto> \<lparr>sign = False, expn = 1, tab = [0x80000000]\<rparr>])
   \<and> calc nan_engine [1 \<mapsto> \<lparr>sign = True, expn = 1, tab = [0x80000000]\<rparr>] (CHR ''b'') 1 7 9
        53 (binary64 BF_RNDN)
       = Inr (0, [1 \<mapsto> \<lparr>sign = False, expn = 1, tab = [0x80000000]\<rparr>])
   \<and> calc nan_engine [1 \<mapsto> \<lparr>sign = True, expn = 1, tab = [0x80000000]\<rparr>] (CHR ''i'') 1 7 9
        53 (binary64 BF_RNDN)
       = Inr (BF_ST_INVALID_OP, [1 \<mapsto> bf_nan])"
proof -
  let ?x = "\<lparr>sign = True, expn = 1, tab = [0x80000000]\<rparr>"
  have l: "load [1 \<mapsto> ?x] 1 = Inr ?x"
    by (simp add: load_single)
  from calc_in_place [of nan_engine "[1 \<mapsto> ?x]" 1 NULL NULL 53 "binary64 BF_RNDN" ?x]
    calc_in_place [of nan_engine "[1 \<mapsto> ?x]" 1 7 9 53 "binary64 BF_RNDN" ?x] l
  show ?thesis
    by (simp add: nan_engine_def)
qed

section \<open>Properties of comparison and conversion\<close>

text \<open>
  C8. For every Value \<open>x\<close>, comparing NaN with \<open>x\<close>, in either argument position,
  returns the unordered outcome 2, and 2 is returned only when an operand is NaN;
  comparing positive zero with negative zero returns the equal outcome 0.
\<close>

theorem compare_nan_and_zeros:
  assumes "load s a = Inr x" and "load s b = Inr y"
  shows "(bf_is_nan x \<longrightarrow> cmp_api s a b = Inr 2 \<and> cmp_api s b a = Inr 2)
       \<and> (cmp_api s a b = Inr 2 \<longleftrightarrow> bf_is_nan x \<or> bf_is_nan y)
       \<and> (x = bf_zero False \<and> y = bf_zero True \<longrightarrow>
            cmp_api s a b = Inr 0 \<and> cmp_api s b a = Inr 0)"
  using assms bf_cmp_unordered_iff [of x y]
  by (auto simp add: cmp_api_def bf_cmp_def bf_zero_def bf_is_nan_def bf_is_zero_def
      BF_EXP_ZERO_def BF_EXP_NAN_def)

theorem compare_nan_and_zeros_witness:
  "load [1 \<mapsto> bf_nan, 2 \<mapsto> bf_inf True] 1 = Inr bf_nan
   \<and> load [1 \<mapsto> bf_nan, 2 \<mapsto> bf_inf True] 2 = Inr (bf_inf True)
   \<and> bf_is_nan bf_nan
   \<and> cmp_api [1 \<mapsto> bf_nan, 2 \<mapsto> bf_inf True] 1 2 = Inr 2
   \<and> cmp_api [1 \<mapsto> bf_nan, 2 \<mapsto> bf_inf True] 2 1 = Inr 2
   \<and> load [1 \<mapsto> bf_zero False, 2 \<mapsto> bf_zero True] 1 = Inr (bf_zero False)
   \<and> load [1 \<mapsto> bf_zero False, 2 \<mapsto> bf_zero True] 2 = Inr (bf_zero True)
   \<and> cmp_api [1 \<mapsto> bf_zero False, 2 \<mapsto> bf_zero True] 1 2 = Inr 0
   \<and> cmp_api [1 \<mapsto> bf_zero False, 2 \<mapsto> bf_zero True] 2 1 = Inr 0"
proof -
  have l1: "load [1 \<mapsto> bf_nan, 2 \<mapsto> bf_inf True] 1 = Inr bf_nan"
    by (simp add: load_def NULL_def)
  have l2: "load [1 \<mapsto> bf_nan, 2 \<mapsto> bf_inf True] 2 = Inr (bf_inf True)"
    by (simp add: load_def NULL_def)
  have z1: "load [1 \<mapsto> bf_zero False, 2 \<mapsto> bf_zero True] 1 = Inr (bf_zero False)"
    by (simp add: load_def NULL_def)
  have z2: "load [1 \<mapsto> bf_zero False, 2 \<mapsto> bf_zero True] 2 = Inr (bf_zero True)"
    by (simp add: load_def NULL_def)
  have n: "bf_is_nan bf_nan"
    by (simp add: bf_is_nan_def bf_nan_def)
  from compare_nan_and_zeros [OF l1 l2] compare_nan_and_zeros [OF z1 z2] l1 l2 z1 z2 n
  show ?thesis by simp
qed

text \<open>
  C7, as amended. For every Value, \<open>get_number_\<close> returns the double that the
  conversion routine stores and nothing else: the status that the routine returns is
  dropped, whatever the routine. With the conversion of the spec, a Value whose
  magnitude is not representable as a double converts to NaN, and the status that
  is dropped has the overflow bit set.
\<close>

theorem get_number_out_of_range:
  assumes "load s a = Inr v"
  shows "get_number_api conv s a rnd = Inr (snd (conv v NAN rnd))
       \<and> (out_of_double_range v rnd \<longrightarrow>
            get_number_api bf_get_float64 s a rnd = Inr NAN
          \<and> bf_get_float64 v NAN rnd = (fst (bf_round v 53 (binary64 rnd)), NAN)
          \<and> fst (bf_get_float64 v NAN rnd) AND BF_ST_OVERFLOW \<noteq> 0)"
  using assms
  by (auto simp add: get_number_api_def bf_get_float64_def out_of_double_range_def
      split: prod.splits)

theorem get_number_out_of_range_witness:
  "load [1 \<mapsto> \<lparr>sign = False, expn = 1025, tab = [0x80000000]\<rparr>] 1
     = Inr \<lparr>sign = False, expn = 1025, tab = [0x80000000]\<rparr>
   \<and> out_of_double_range \<lparr>sign = False, expn = 1025, tab = [0x80000000]\<rparr> BF_RNDN
   \<and> get_number_api bf_get_float64 [1 \<mapsto> \<lparr>sign = False, expn = 1025, tab = [0x80000000]\<rparr>] 1
         BF_RNDN = Inr NAN
   \<and> get_number_api (\<lambda>v d m. (0, Double v)) [1 \<mapsto> \<lparr>sign = False, expn = 1025, tab = [0x80000000]\<rparr>] 1
         BF_RNDN = Inr (Double \<lparr>sign = False, expn = 1025, tab = [0x80000000]\<rparr>)"
proof -
  let ?v = "\<lparr>sign = False, expn = 1025, tab = [0x80000000]\<rparr>"
  have l: "load [1 \<mapsto> ?v] 1 = Inr ?v"
    by (simp add: load_single)
  have o: "out_of_double_range ?v BF_RNDN"
    by (simp add: out_of_double_range_def huge_round bf_is_nan_def BF_EXP_NAN_def BF_ST_OVERFLOW_def)
  from get_number_out_of_range [OF l, of bf_get_float64 BF_RNDN]
    get_number_out_of_range [OF l, of "\<lambda>v d m. (0, Double v)" BF_RNDN] l o
  show ?thesis by simp
qed

text \<open>
  The claim as it was stated fails: the result of \<open>get_number_\<close> carries no status and
  does not tell a conversion that was out of range from one that was not. The Value
  \<open>2 ^ 1024\<close> is out of range and converts with status 20 (overflow and inexact); the
  NaN Value is not and converts with status 0; \<open>get_number_\<close> returns the same NaN for
  both.
\<close>

theorem get_number_status_counterexample:
  "get_number_api bf_get_float64 [1 \<mapsto> \<lparr>sign = False, expn = 1025, tab = [0x80000000]\<rparr>] 1 BF_RNDN
     = Inr NAN
   \<and> get_number_api bf_get_float64 [1 \<mapsto> bf_nan] 1 BF_RNDN = Inr NAN
   \<and> out_of_double_range \<lparr>sign = False, expn = 1025, tab = [0x80000000]\<rparr> BF_RNDN
   \<and> \<not> out_of_double_range bf_nan BF_RNDN
   \<and> fst (bf_get_float64 \<lparr>sign = False, expn = 1025, tab = [0x80000000]\<rparr> NAN BF_RNDN) = 20
   \<and> fst (bf_get_float64 bf_nan NAN BF_RNDN) = 0
   \<and> bf_val \<lparr>sign = False, expn = 1025, tab = [0x80000000]\<rparr> = 2 ^ 1024"
  by (simp add: get_number_api_def bf_get_float64_def out_of_double_range_def huge_round
      load_def NULL_def bf_is_nan_def bf_nan_def BF_EXP_NAN_def BF_ST_OVERFLOW_def
      bf_val_def bf_mant_def bf_exp2_def)

section \<open>Properties of the precision helper\<close>

text \<open>
  C6, as amended. For every digit count \<open>n\<close> below 44240665, \<open>bits_\<close> returns the
  double of the ceiling of \<open>n\<close> times 3.32192809488736234786: rounding the product to
  a double before the ceiling is taken does not change the result there.
\<close>

theorem bits_matches_spec_below:
  assumes "n < 44240665"
  shows "bits_api (d_of_nat n) = d_of_nat (nat (digits_to_bits_spec n))
       \<and> d_int (bits_api (d_of_nat n)) = digits_to_bits_spec n"
proof -
  consider "n = 0" | "0 < n" "n < 2 ^ 25" | "2 ^ 25 \<le> n" by linarith
  then have "bits_api (d_of_nat n) = d_of_nat (nat (digits_to_bits_spec n))
      \<and> 0 \<le> digits_to_bits_spec n"
  proof cases
    case 1
    then show ?thesis by (simp add: bits_api_zero digits_to_bits_spec_def)
  next
    case 2
    then show ?thesis using bits_api_small [of n] by simp
  next
    case 3
    then show ?thesis using bits_api_large [of n] assms by simp
  qed
  then show ?thesis by (simp add: d_int_d_of_nat)
qed

theorem bits_matches_spec_below_witness:
  "(100::nat) < 44240665
   \<and> bits_api (d_of_nat 100) = d_of_nat 333
   \<and> d_int (bits_api (d_of_nat 100)) = 333"
proof -
  have l: "(100::nat) < 44240665" by simp
  have c: "digits_to_bits_spec 100 = 333" by (simp add: digits_to_bits_spec_div)
  from bits_matches_spec_below [OF l] l c show ?thesis by (simp add: d_int_d_of_nat)
qed

text \<open>
  The claim as it was stated, for every digit count, fails at the first digit count
  that is not below 44240665: 44240665 times the constant is
  146964308.0000000103652877269, whose ceiling is 146964309, but the product with the
  double nearest to the constant rounds to the double 146964308, and \<open>bits_\<close> returns
  146964308.
\<close>

theorem bits_counterexample:
  "bits_api (d_of_nat 44240665) = d_of_nat 146964308
   \<and> d_int (bits_api (d_of_nat 44240665)) = 146964308
   \<and> digits_to_bits_spec 44240665 = 146964309"
proof -
  have a: "bits_api (d_of_nat 44240665) = d_of_nat 146964308"
    by (simp add: bits_api_def d_mul_44240665 d_of_nat_146964308 d_ceil_def bf_ceil_int_def
        bf_mant_def bf_exp2_def Let_def bf_set_si_def bf_set_ui_def bf_norm_def)
  have b: "digits_to_bits_spec 44240665 = 146964309"
    by (simp add: digits_to_bits_spec_div)
  from a b show ?thesis by (simp add: d_int_d_of_nat)
qed

section \<open>Properties of the allocator binding\<close>

text \<open>
  C9. For every non-null buffer pointer, the allocator binding called with the size
  zero frees the buffer and returns the null pointer: the block is no longer live in
  the resulting heap, every other block is as it was, and the host's \<open>realloc\<close> is
  not consulted.
\<close>

theorem my_bf_realloc_shrink_to_zero:
  assumes "p \<noteq> NULL"
  shows "my_bf_realloc realloc h opaque p 0 = (free h p, NULL)
         \<and> p \<notin> dom (fst (my_bf_realloc realloc h opaque p 0))
         \<and> (\<forall>q. q \<noteq> p \<longrightarrow> fst (my_bf_realloc realloc h opaque p 0) q = h q)"
  using assms by (simp add: my_bf_realloc_def free_def)

theorem my_bf_realloc_shrink_to_zero_witness:
  "(16::addr) \<noteq> NULL
   \<and> my_bf_realloc (\<lambda>h p n. (h, p)) [16 \<mapsto> 64, 96 \<mapsto> 8] () 16 0
       = (free [16 \<mapsto> 64, 96 \<mapsto> 8] 16, NULL)
   \<and> 16 \<notin> dom (fst (my_bf_realloc (\<lambda>h p n. (h, p)) [16 \<mapsto> 64, 96 \<mapsto> 8] () 16 0))
   \<and> fst (my_bf_realloc (\<lambda>h p n. (h, p)) [16 \<mapsto> 64, 96 \<mapsto> 8] () 16 0) 96 = Some 8"
proof -
  have nz: "(16::addr) \<noteq> NULL" by (simp add: NULL_def)
  from my_bf_realloc_shrink_to_zero [OF nz, of "\<lambda>h p n. (h, p)" "[16 \<mapsto> 64, 96 \<mapsto> 8]" "()"]
  show ?thesis using nz by (simp add: free_def)
qed

end
